theory Spec2Isabelle
  imports Complex_Main "HOL-Library.Log_Nat" "HOL-Library.Sublist"
begin

section \<open>Python values used by \<^verbatim>\<open>monitor.py\<close>\<close>

subsection \<open>Exceptions and outcomes of a call\<close>

text \<open>
  The exceptions that can reach the code of the monitor. \<open>NoSuchProcess\<close> and
  \<open>AccessDenied\<close> are the two \<^verbatim>\<open>psutil\<close> exceptions the source names in its
  \<^verbatim>\<open>except\<close> clauses; \<open>OtherError\<close> stands for any other subclass of
  \<^verbatim>\<open>Exception\<close>, with its message.
\<close>

datatype exn =
    NoSuchProcess
  | AccessDenied
  | AttributeError
  | TypeError
  | ZeroDivisionError
  | OtherError string

text \<open>
  A call returns a value, raises, or never returns (\<open>Hangs\<close>: a blocking call that
  waits for ever). Functions that mutate \<^verbatim>\<open>self\<close> return the outcome paired with
  the object after the call, so that the mutations done before a \<^verbatim>\<open>raise\<close> stay
  visible.
\<close>

datatype 'a outcome = Returns 'a | Raises exn | Hangs

subsection \<open>Floats\<close>

text \<open>
  A finite Python \<^verbatim>\<open>float\<close> is an IEEE 754 binary64 number; it is modelled by its
  exact rational value. \<open>fl\<close> rounds a rational to the nearest binary64 value, ties to
  even: 53 significant bits above \<open>2^-1022\<close>, the fixed spacing \<open>2^-1074\<close> below.
  Overflow to infinity is not modelled; no operation of the monitor comes near it.
\<close>

type_synonym float = rat

definition rne :: "rat \<Rightarrow> int" where
  "rne x = (let f = \<lfloor>x\<rfloor>; r = x - of_int f in
     if r < 1 / 2 then f else if 1 / 2 < r then f + 1 else if even f then f else f + 1)"

definition ilog2 :: "rat \<Rightarrow> int" where
  "ilog2 x = (let (p, q) = quotient_of x; d = bitlen p - bitlen q in
     if x < 2 powi d then d - 1 else d)"

definition fl :: "rat \<Rightarrow> float" where
  "fl x = (if x = 0 then 0 else
     let u = 2 powi (max (ilog2 \<bar>x\<bar>) (- 1022) - 52) in of_int (rne (x / u)) * u)"

text \<open>
  \<^verbatim>\<open>a / b\<close> on two \<^verbatim>\<open>int\<close>s is true division, correctly rounded, and raises
  \<^verbatim>\<open>ZeroDivisionError\<close> on a zero divisor; \<^verbatim>\<open>x * n\<close>, \<^verbatim>\<open>x - y\<close> and
  \<^verbatim>\<open>x / y\<close> on floats round the exact result (an \<^verbatim>\<open>int\<close> operand is converted
  first, exactly for the integers that occur here).
\<close>

definition int_truediv :: "int \<Rightarrow> int \<Rightarrow> float outcome" where
  "int_truediv a b = (if b = 0 then Raises ZeroDivisionError else Returns (fl (of_int a / of_int b)))"

definition float_mul :: "float \<Rightarrow> float \<Rightarrow> float" where
  "float_mul x y = fl (x * y)"

definition float_sub :: "float \<Rightarrow> float \<Rightarrow> float" where
  "float_sub x y = fl (x - y)"

definition float_add :: "float \<Rightarrow> float \<Rightarrow> float" where
  "float_add x y = fl (x + y)"

text \<open>
  \<^verbatim>\<open>sum(xs)\<close> on floats: starting from 0, the values are added from left to right
  and every addition rounds (CPython up to 3.11; later versions carry a compensation
  term along, which can change the last place of the result).
\<close>

definition py_sum :: "float list \<Rightarrow> float" where
  "py_sum xs = foldl float_add 0 xs"

definition float_truediv :: "float \<Rightarrow> float \<Rightarrow> float outcome" where
  "float_truediv x y = (if y = 0 then Raises ZeroDivisionError else Returns (fl (x / y)))"

subsection \<open>Strings\<close>

text \<open>
  \<^verbatim>\<open>str.lower()\<close> on the ASCII letters, and \<^verbatim>\<open>needle in haystack\<close> as the
  contiguous-sublist test. Characters outside ASCII are left as they are.
\<close>

definition lower_char :: "char \<Rightarrow> char" where
  "lower_char c = (let n = of_char c :: nat in if 65 \<le> n \<and> n \<le> 90 then char_of (n + 32) else c)"

definition lower :: "string \<Rightarrow> string" where
  "lower s = map lower_char s"

definition str_in :: "string \<Rightarrow> string \<Rightarrow> bool" where
  "str_in needle haystack = sublist needle haystack"

subsection \<open>\<^verbatim>\<open>collections.deque(maxlen=n)\<close>\<close>

text \<open>
  A bounded deque: \<^verbatim>\<open>append\<close> puts the value at the right end and, when the length
  then exceeds \<^verbatim>\<open>maxlen\<close>, pops one value from the left end.
\<close>

record 'a deque =
  maxlen :: nat
  items :: "'a list"

definition deque_new :: "nat \<Rightarrow> 'a deque" where
  "deque_new n = \<lparr>maxlen = n, items = []\<rparr>"

definition deque_append :: "'a deque \<Rightarrow> 'a \<Rightarrow> 'a deque" where
  "deque_append d x =
     (let ys = items d @ [x] in d\<lparr>items := (if maxlen d < length ys then tl ys else ys)\<rparr>)"

section \<open>\<^verbatim>\<open>SystemMonitor\<close>\<close>

record SystemMonitor =
  cpu_history :: "float deque"
  memory_history :: "float deque"
  disk_history :: "float deque"

definition SystemMonitor_init :: SystemMonitor where
  "SystemMonitor_init =
     \<lparr>cpu_history = deque_new 60, memory_history = deque_new 60, disk_history = deque_new 60\<rparr>"

text \<open>
  What \<^verbatim>\<open>psutil.virtual_memory()\<close> and \<^verbatim>\<open>psutil.disk_usage('/')\<close> report (bytes
  and a percentage), and the dictionary the monitor makes of it (gigabytes).
\<close>

record os_usage =
  raw_total :: int
  raw_used :: int
  raw_percent :: float

record usage =
  total :: float
  used :: float
  percent :: float

text \<open>
  The host queries of one sampling: each either answers or raises. The source has no
  \<^verbatim>\<open>try\<close> around any of them.
\<close>

record host_queries =
  cpu_percent_query :: "float outcome"
  virtual_memory_query :: "os_usage outcome"
  disk_usage_query :: "os_usage outcome"

definition get_cpu_usage :: "host_queries \<Rightarrow> float outcome" where
  "get_cpu_usage q = cpu_percent_query q"

definition to_gb :: "int \<Rightarrow> float" where
  "to_gb b = fl (of_int b / of_int (1024 * 1024 * 1024))"

definition usage_of :: "os_usage outcome \<Rightarrow> usage outcome" where
  "usage_of r = (case r of
       Returns m \<Rightarrow> Returns \<lparr>total = to_gb (raw_total m), used = to_gb (raw_used m),
                              percent = raw_percent m\<rparr>
     | Raises e \<Rightarrow> Raises e
     | Hangs \<Rightarrow> Hangs)"

definition get_memory_usage :: "host_queries \<Rightarrow> usage outcome" where
  "get_memory_usage q = usage_of (virtual_memory_query q)"

definition get_disk_usage :: "host_queries \<Rightarrow> usage outcome" where
  "get_disk_usage q = usage_of (disk_usage_query q)"

text \<open>
  \<^verbatim>\<open>update_history\<close>: three statements in sequence; the first that raises ends the
  call, with the appends made so far kept.
\<close>

definition update_history :: "SystemMonitor \<Rightarrow> host_queries \<Rightarrow> unit outcome \<times> SystemMonitor" where
  "update_history sm q =
     (case get_cpu_usage q of
        Raises e \<Rightarrow> (Raises e, sm)
      | Hangs \<Rightarrow> (Hangs, sm)
      | Returns c \<Rightarrow>
          let sm1 = sm\<lparr>cpu_history := deque_append (cpu_history sm) c\<rparr> in
          (case get_memory_usage q of
             Raises e \<Rightarrow> (Raises e, sm1)
           | Hangs \<Rightarrow> (Hangs, sm1)
           | Returns m \<Rightarrow>
               let sm2 = sm1\<lparr>memory_history := deque_append (memory_history sm1) (percent m)\<rparr> in
               (case get_disk_usage q of
                  Raises e \<Rightarrow> (Raises e, sm2)
                | Hangs \<Rightarrow> (Hangs, sm2)
                | Returns d \<Rightarrow>
                    (Returns (), sm2\<lparr>disk_history := deque_append (disk_history sm2) (percent d)\<rparr>))))"

section \<open>\<^verbatim>\<open>ApplicationMonitor\<close>\<close>

record ErrorRecord =
  err_time :: string
  err_error :: string

record ApplicationMonitor =
  url :: string
  response_times :: "float deque"
  errors :: "ErrorRecord deque"

definition ApplicationMonitor_init :: "string \<Rightarrow> ApplicationMonitor" where
  "ApplicationMonitor_init u =
     \<lparr>url = u, response_times = deque_new 60, errors = deque_new 100\<rparr>"

text \<open>
  \<^verbatim>\<open>requests.get(url, timeout=t)\<close>. The peer answers with a status code, the request
  fails with an exception (its message is kept), or the peer stays silent. A silent
  peer ends in a timeout exception when a timeout was given and blocks the call for
  ever when none was (\<^verbatim>\<open>timeout=None\<close>, the default of \<^verbatim>\<open>requests\<close>).
\<close>

datatype peer = Answers int | Fails string | Silent

definition requests_get :: "string \<Rightarrow> float option \<Rightarrow> peer \<Rightarrow> int outcome" where
  "requests_get u timeout p = (case p of
       Answers code \<Rightarrow> Returns code
     | Fails msg \<Rightarrow> Raises (OtherError msg)
     | Silent \<Rightarrow> (case timeout of None \<Rightarrow> Hangs | Some t \<Rightarrow> Raises (OtherError ''timed out'')))"

text \<open>\<^verbatim>\<open>str(e)\<close> of a caught exception.\<close>

fun str_exn :: "exn \<Rightarrow> string" where
  "str_exn (OtherError msg) = msg"
| "str_exn NoSuchProcess = ''NoSuchProcess''"
| "str_exn AccessDenied = ''AccessDenied''"
| "str_exn AttributeError = ''AttributeError''"
| "str_exn TypeError = ''TypeError''"
| "str_exn ZeroDivisionError = ''ZeroDivisionError''"

text \<open>
  What one probe sees of the world: the two readings of \<^verbatim>\<open>time.time()\<close>, the peer,
  and \<^verbatim>\<open>datetime.now().isoformat()\<close> for the error record.
\<close>

record probe_env =
  time_start :: float
  time_end :: float
  peer_of :: peer
  now_iso :: string

record HealthRecord =
  health_status :: int
  health_response_time :: float
  health_is_alive :: bool
  health_error :: "string option"

text \<open>
  \<^verbatim>\<open>check_health\<close>. The source calls \<^verbatim>\<open>requests.get(self.url)\<close>: no timeout
  argument. \<^verbatim>\<open>except Exception\<close> catches every exception of the request.
\<close>

definition check_health :: "ApplicationMonitor \<Rightarrow> probe_env \<Rightarrow> HealthRecord outcome \<times> ApplicationMonitor" where
  "check_health am env =
     (case requests_get (url am) None (peer_of env) of
        Returns status_code \<Rightarrow>
          let response_time = float_sub (time_end env) (time_start env);
              am' = am\<lparr>response_times := deque_append (response_times am) response_time\<rparr>
          in (Returns \<lparr>health_status = status_code, health_response_time = response_time,
                       health_is_alive = (status_code = 200), health_error = None\<rparr>, am')
      | Raises e \<Rightarrow>
          let am' = am\<lparr>errors := deque_append (errors am) \<lparr>err_time = now_iso env, err_error = str_exn e\<rparr>\<rparr>
          in (Returns \<lparr>health_status = 0, health_response_time = 0,
                       health_is_alive = False, health_error = Some (str_exn e)\<rparr>, am')
      | Hangs \<Rightarrow> (Hangs, am))"

text \<open>
  \<^verbatim>\<open>sum(self.response_times) / len(self.response_times)\<close>: a float sum, then a float
  division by the count.
\<close>

definition get_average_response_time :: "ApplicationMonitor \<Rightarrow> float outcome" where
  "get_average_response_time am =
     (if items (response_times am) = [] then Returns 0
      else float_truediv (py_sum (items (response_times am)))
                         (of_nat (length (items (response_times am)))))"

definition get_error_rate :: "ApplicationMonitor \<Rightarrow> float outcome" where
  "get_error_rate am =
     (if items (errors am) = [] then Returns 0
      else (case int_truediv (int (length (items (errors am)))) 100 of
              Returns r \<Rightarrow> Returns (float_mul r 100)
            | Raises e \<Rightarrow> Raises e
            | Hangs \<Rightarrow> Hangs))"

text \<open>
  Consecutive probes on one \<^verbatim>\<open>ApplicationMonitor\<close>, as the rounds of the loop issue
  them, and the number of those whose request failed.
\<close>

fun check_health_seq :: "ApplicationMonitor \<Rightarrow> probe_env list \<Rightarrow> unit outcome \<times> ApplicationMonitor" where
  "check_health_seq am [] = (Returns (), am)"
| "check_health_seq am (env # envs) = (case check_health am env of
       (Returns h, am') \<Rightarrow> check_health_seq am' envs
     | (Raises e, am') \<Rightarrow> (Raises e, am')
     | (Hangs, am') \<Rightarrow> (Hangs, am'))"

fun request_fails :: "probe_env \<Rightarrow> bool" where
  "request_fails env = (case peer_of env of Fails msg \<Rightarrow> True | _ \<Rightarrow> False)"

definition failures :: "probe_env list \<Rightarrow> nat" where
  "failures envs = length (filter request_fails envs)"





text \<open>
  What the two roundings of \<^verbatim>\<open>(n / 100) * 100\<close> leave of error at the count \<open>n\<close>.
\<close>

definition rate_deviation :: "nat \<Rightarrow> rat" where
  "rate_deviation n =
     (if n = 7 then 1 / 2 ^ 50 else if n = 14 then 1 / 2 ^ 49
      else if n = 28 then 1 / 2 ^ 48 else if n = 29 then - (1 / 2 ^ 48)
      else if n = 55 \<or> n = 56 then 1 / 2 ^ 47
      else if n = 57 \<or> n = 58 then - (1 / 2 ^ 47) else 0)"

section \<open>\<^verbatim>\<open>ProcessMonitor\<close>\<close>

text \<open>
  A process as \<^verbatim>\<open>psutil.process_iter(['pid', 'name', 'cmdline'])\<close> yields it: its pid
  and the precomputed \<^verbatim>\<open>info\<close> dictionary. An attribute whose retrieval was denied
  is stored as \<^verbatim>\<open>None\<close> (the \<^verbatim>\<open>ad_value\<close> of \<^verbatim>\<open>process_iter\<close>). \<open>Inl e\<close>
  stands for a process whose \<^verbatim>\<open>info\<close> cannot be read at all: reading it raises \<open>e\<close>.
\<close>

record ProcInfo =
  info_name :: "string option"
  info_cmdline :: "string list option"

record Process =
  pid :: nat
  info :: "exn + ProcInfo"

record ProcessMonitor =
  process_name :: string
  processes :: "Process list"

definition ProcessMonitor_init :: "string \<Rightarrow> ProcessMonitor" where
  "ProcessMonitor_init n = \<lparr>process_name = n, processes = []\<rparr>"

text \<open>
  The body of the loop of \<^verbatim>\<open>find_processes\<close> for one process: whether it is
  appended. \<^verbatim>\<open>None.lower()\<close> raises \<^verbatim>\<open>AttributeError\<close> and iterating over
  \<^verbatim>\<open>None\<close> raises \<^verbatim>\<open>TypeError\<close>; the \<^verbatim>\<open>except\<close> clause catches
  \<^verbatim>\<open>NoSuchProcess\<close> and \<^verbatim>\<open>AccessDenied\<close> only.
\<close>

definition process_matches :: "string \<Rightarrow> Process \<Rightarrow> bool outcome" where
  "process_matches pname proc = (case info proc of
       Inl e \<Rightarrow> (if e = NoSuchProcess \<or> e = AccessDenied then Returns False else Raises e)
     | Inr i \<Rightarrow> (case info_name i of
         None \<Rightarrow> Raises AttributeError
       | Some n \<Rightarrow>
           if str_in pname (lower n) then
             (case info_cmdline i of
                None \<Rightarrow> Raises TypeError
              | Some cmdline \<Rightarrow>
                  Returns (list_ex (\<lambda>cmd. str_in ''server.py'' (lower cmd))
                                   (filter (\<lambda>cmd. cmd \<noteq> []) cmdline)))
           else Returns False))"

fun find_loop :: "string \<Rightarrow> Process list \<Rightarrow> Process list \<Rightarrow> unit outcome \<times> Process list" where
  "find_loop pname [] acc = (Returns (), acc)"
| "find_loop pname (proc # procs) acc = (case process_matches pname proc of
       Returns b \<Rightarrow> find_loop pname procs (if b then acc @ [proc] else acc)
     | Raises e \<Rightarrow> (Raises e, acc)
     | Hangs \<Rightarrow> (Hangs, acc))"

definition find_processes :: "ProcessMonitor \<Rightarrow> Process list \<Rightarrow> Process list outcome \<times> ProcessMonitor" where
  "find_processes pm table =
     (case find_loop (process_name pm) table [] of
        (Returns u, acc) \<Rightarrow> (Returns acc, pm\<lparr>processes := acc\<rparr>)
      | (Raises e, acc) \<Rightarrow> (Raises e, pm\<lparr>processes := acc\<rparr>)
      | (Hangs, acc) \<Rightarrow> (Hangs, pm\<lparr>processes := acc\<rparr>))"

text \<open>
  What the calls of \<^verbatim>\<open>get_process_info\<close> read from a process, and the dictionary
  it returns; \<open>None\<close> is the empty dictionary \<^verbatim>\<open>{}\<close>.
\<close>

record os_process_metrics =
  os_cpu_percent :: float
  os_rss :: int
  os_vms :: int
  os_num_threads :: nat
  os_connections :: nat
  os_open_files :: nat

record ProcessInfo =
  pi_pid :: nat
  pi_cpu_percent :: float
  pi_memory_rss :: float
  pi_memory_vms :: float
  pi_threads :: nat
  pi_connections :: nat
  pi_open_files :: nat

definition to_mb :: "int \<Rightarrow> float" where
  "to_mb b = fl (of_int b / of_int (1024 * 1024))"

definition get_process_info ::
  "(Process \<Rightarrow> os_process_metrics outcome) \<Rightarrow> Process \<Rightarrow> ProcessInfo option outcome" where
  "get_process_info metrics process = (case metrics process of
       Returns m \<Rightarrow> Returns (Some
         \<lparr>pi_pid = pid process, pi_cpu_percent = os_cpu_percent m,
          pi_memory_rss = to_mb (os_rss m), pi_memory_vms = to_mb (os_vms m),
          pi_threads = os_num_threads m, pi_connections = os_connections m,
          pi_open_files = os_open_files m\<rparr>)
     | Raises e \<Rightarrow> (if e = NoSuchProcess \<or> e = AccessDenied then Returns None else Raises e)
     | Hangs \<Rightarrow> Hangs)"

text \<open>
  Containment without regard to case, as the specification words the process filter.
\<close>

definition contains_ignoring_case :: "string \<Rightarrow> string \<Rightarrow> bool" where
  "contains_ignoring_case needle haystack = sublist (lower needle) (lower haystack)"


section \<open>\<^verbatim>\<open>Monitor\<close>\<close>

record Args =
  arg_url :: string
  arg_interval :: nat
  arg_quiet :: bool

record Monitor =
  args :: Args
  system_monitor :: SystemMonitor
  app_monitor :: ApplicationMonitor
  process_monitor :: ProcessMonitor
  stats_file :: string
  is_running :: bool

definition Monitor_init :: "Args \<Rightarrow> Monitor" where
  "Monitor_init a =
     \<lparr>args = a, system_monitor = SystemMonitor_init,
      app_monitor = ApplicationMonitor_init (arg_url a),
      process_monitor = ProcessMonitor_init ''python'',
      stats_file = ''monitor_stats.json'', is_running = False\<rparr>"

record SystemStats =
  sys_cpu_percent :: float
  sys_memory_percent :: float
  sys_disk_percent :: float
  sys_cpu_history :: "float list"
  sys_memory_history :: "float list"
  sys_disk_history :: "float list"

record ApplicationStats =
  app_is_alive :: bool
  app_status_code :: int
  app_response_time :: float
  app_avg_response_time :: float
  app_error_rate :: float
  app_recent_errors :: "ErrorRecord list"

record Stats =
  timestamp :: string
  system :: SystemStats
  application :: ApplicationStats
  process :: "ProcessInfo option"

text \<open>
  What one round sees of the world, in the order the round asks for it.
\<close>

text \<open>
  How the write of the stats file goes: \<^verbatim>\<open>open(..., 'w')\<close> fails, or it succeeds
  (truncating the file) and \<^verbatim>\<open>json.dump\<close> or the closing of the file then fails,
  or the snapshot is written.
\<close>

datatype write_outcome = Write_ok | Open_fails string | Dump_fails string

record round_env =
  history_queries :: host_queries
  probe :: probe_env
  process_table :: "Process list"
  process_metrics :: "Process \<Rightarrow> os_process_metrics outcome"
  stats_now :: string
  stats_queries :: host_queries
  write_result :: write_outcome

text \<open>
  \<^verbatim>\<open>collect_stats\<close>, statement by statement. \<open>bind\<close> is the sequencing of two
  statements: the second runs when the first returned.
\<close>

definition bind :: "'a outcome \<times> 's \<Rightarrow> ('a \<Rightarrow> 's \<Rightarrow> 'b outcome \<times> 's) \<Rightarrow> 'b outcome \<times> 's" where
  "bind r f = (case r of
       (Returns x, s) \<Rightarrow> f x s
     | (Raises e, s) \<Rightarrow> (Raises e, s)
     | (Hangs, s) \<Rightarrow> (Hangs, s))"

definition collect_stats :: "Monitor \<Rightarrow> round_env \<Rightarrow> Stats outcome \<times> Monitor" where
  "collect_stats m env =
     bind (case update_history (system_monitor m) (history_queries env) of
             (r, sm) \<Rightarrow> (r, m\<lparr>system_monitor := sm\<rparr>)) (\<lambda>_ m.
     bind (case check_health (app_monitor m) (probe env) of
             (r, am) \<Rightarrow> (r, m\<lparr>app_monitor := am\<rparr>)) (\<lambda>health m.
     bind (case find_processes (process_monitor m) (process_table env) of
             (r, pm) \<Rightarrow> (r, m\<lparr>process_monitor := pm\<rparr>)) (\<lambda>processes m.
     bind (case processes of
             [] \<Rightarrow> (Returns None, m)
           | p # _ \<Rightarrow> (get_process_info (process_metrics env) p, m)) (\<lambda>process_info m.
     bind (get_cpu_usage (stats_queries env), m) (\<lambda>cpu m.
     bind (get_memory_usage (stats_queries env), m) (\<lambda>memory m.
     bind (get_disk_usage (stats_queries env), m) (\<lambda>disk m.
     bind (get_average_response_time (app_monitor m), m) (\<lambda>avg m.
     bind (get_error_rate (app_monitor m), m) (\<lambda>rate m.
       (Returns
          \<lparr>timestamp = stats_now env,
           system =
             \<lparr>sys_cpu_percent = cpu, sys_memory_percent = percent memory,
              sys_disk_percent = percent disk,
              sys_cpu_history = items (cpu_history (system_monitor m)),
              sys_memory_history = items (memory_history (system_monitor m)),
              sys_disk_history = items (disk_history (system_monitor m))\<rparr>,
           application =
             \<lparr>app_is_alive = health_is_alive health, app_status_code = health_status health,
              app_response_time = health_response_time health,
              app_avg_response_time = avg, app_error_rate = rate,
              app_recent_errors = items (errors (app_monitor m))\<rparr>,
           process = process_info\<rparr>, m))))))))))"

text \<open>
  The effects of a round outside the monitor object: the stats file (missing, holding
  the snapshot last written, or left truncated by a failed write), the terminal and
  the log.
\<close>

datatype log_event =
    Warning_high_cpu
  | Warning_high_memory
  | Error_not_responding
  | Error_save_failed string
  | Info_stopped

datatype line =
    Status_line bool
  | System_header
  | Cpu_line float
  | Memory_line float
  | Disk_line float
  | Process_header
  | Pid_line nat
  | Process_cpu_line float
  | Process_memory_line float
  | Threads_line nat
  | Performance_header
  | Avg_response_line float
  | Error_rate_line float

datatype file_state = Missing | Holds Stats | Truncated

record world =
  file_content :: file_state
  terminal :: "line list"
  log :: "log_event list"

text \<open>
  \<^verbatim>\<open>save_stats\<close>: every exception of the write is caught and logged. A failing
  \<^verbatim>\<open>open\<close> leaves the file as it was; a failure after it leaves the file truncated
  or partly written.
\<close>

definition save_stats :: "round_env \<Rightarrow> Stats \<Rightarrow> world \<Rightarrow> world" where
  "save_stats env stats w = (case write_result env of
       Write_ok \<Rightarrow> w\<lparr>file_content := Holds stats\<rparr>
     | Open_fails msg \<Rightarrow> w\<lparr>log := log w @ [Error_save_failed msg]\<rparr>
     | Dump_fails msg \<Rightarrow> w\<lparr>file_content := Truncated, log := log w @ [Error_save_failed msg]\<rparr>)"

definition format_stats :: "Stats \<Rightarrow> line list" where
  "format_stats stats =
     [Status_line (app_is_alive (application stats)),
      System_header,
      Cpu_line (sys_cpu_percent (system stats)),
      Memory_line (sys_memory_percent (system stats)),
      Disk_line (sys_disk_percent (system stats))]
     @ (case process stats of
          None \<Rightarrow> []
        | Some p \<Rightarrow>
            [Process_header, Pid_line (pi_pid p), Process_cpu_line (pi_cpu_percent p),
             Process_memory_line (pi_memory_rss p), Threads_line (pi_threads p)])
     @ [Performance_header,
        Avg_response_line (float_mul (app_avg_response_time (application stats)) 1000),
        Error_rate_line (app_error_rate (application stats))]"

text \<open>
  The body of the loop of \<^verbatim>\<open>monitor\<close>: one round. An exception of
  \<^verbatim>\<open>collect_stats\<close> leaves the loop; nothing in \<^verbatim>\<open>monitor\<close> catches it.
\<close>

definition monitor_round :: "Monitor \<Rightarrow> world \<Rightarrow> round_env \<Rightarrow> Stats outcome \<times> Monitor \<times> world" where
  "monitor_round m w env = (case collect_stats m env of
       (Returns stats, m') \<Rightarrow>
         let w1 = save_stats env stats w;
             w2 = (if arg_quiet (args m') then w1 else w1\<lparr>terminal := format_stats stats\<rparr>);
             w3 = (if 90 < sys_cpu_percent (system stats)
                   then w2\<lparr>log := log w2 @ [Warning_high_cpu]\<rparr> else w2);
             w4 = (if 90 < sys_memory_percent (system stats)
                   then w3\<lparr>log := log w3 @ [Warning_high_memory]\<rparr> else w3);
             w5 = (if \<not> app_is_alive (application stats)
                   then w4\<lparr>log := log w4 @ [Error_not_responding]\<rparr> else w4)
         in (Returns stats, m', w5)
     | (Raises e, m') \<Rightarrow> (Raises e, m', w)
     | (Hangs, m') \<Rightarrow> (Hangs, m', w))"

text \<open>
  \<^verbatim>\<open>monitor\<close>: rounds until the operator's interrupt, which is taken between two
  rounds (the list holds the rounds that start before it). The \<^verbatim>\<open>finally\<close> clause
  resets \<^verbatim>\<open>is_running\<close> on every way out.
\<close>

fun monitor_loop :: "Monitor \<Rightarrow> world \<Rightarrow> round_env list \<Rightarrow> unit outcome \<times> Monitor \<times> world" where
  "monitor_loop m w [] = (Returns (), m, w\<lparr>log := log w @ [Info_stopped]\<rparr>)"
| "monitor_loop m w (env # envs) = (case monitor_round m w env of
       (Returns stats, m', w') \<Rightarrow> monitor_loop m' w' envs
     | (Raises e, m', w') \<Rightarrow> (Raises e, m', w')
     | (Hangs, m', w') \<Rightarrow> (Hangs, m', w'))"

definition monitor :: "Monitor \<Rightarrow> world \<Rightarrow> round_env list \<Rightarrow> unit outcome \<times> Monitor \<times> world" where
  "monitor m w envs = (case monitor_loop (m\<lparr>is_running := True\<rparr>) w envs of
       (r, m', w') \<Rightarrow> (r, m'\<lparr>is_running := False\<rparr>, w'))"

section \<open>Example inputs\<close>

text \<open>A probe whose connection is refused.\<close>

definition refused :: probe_env where
  "refused = \<lparr>time_start = 1000, time_end = 1001, peer_of = Fails ''Connection refused'',
              now_iso = ''2024-01-01T00:00:00''\<rparr>"


text \<open>A probe answered with status 404 after one second, and a probe never answered.\<close>

definition not_found :: probe_env where
  "not_found = \<lparr>time_start = 1000, time_end = 1001, peer_of = Answers 404,
                 now_iso = ''2024-01-01T00:00:00''\<rparr>"

definition silent :: probe_env where
  "silent = \<lparr>time_start = 1000, time_end = 1001, peer_of = Silent,
              now_iso = ''2024-01-01T00:00:00''\<rparr>"


text \<open>
  Host queries that all answer, and host queries whose memory query raises; the
  arguments \<^verbatim>\<open>main\<close> builds by default, the world before the first round, and a
  round in which the memory query of \<^verbatim>\<open>update_history\<close> raises and everything
  else answers.
\<close>

definition healthy_queries :: host_queries where
  "healthy_queries =
     \<lparr>cpu_percent_query = Returns 50,
      virtual_memory_query = Returns \<lparr>raw_total = 8589934592, raw_used = 4294967296, raw_percent = 50\<rparr>,
      disk_usage_query = Returns \<lparr>raw_total = 107374182400, raw_used = 42949672960, raw_percent = 40\<rparr>\<rparr>"

definition memory_query_fails :: host_queries where
  "memory_query_fails =
     healthy_queries\<lparr>virtual_memory_query := Raises (OtherError ''virtual_memory failed'')\<rparr>"

definition default_args :: Args where
  "default_args = \<lparr>arg_url = ''http://localhost:8000'', arg_interval = 5, arg_quiet = False\<rparr>"

definition fresh_world :: world where
  "fresh_world = \<lparr>file_content = Missing, terminal = [], log = []\<rparr>"

definition memory_fails_round :: round_env where
  "memory_fails_round =
     \<lparr>history_queries = memory_query_fails, probe = not_found, process_table = [],
      process_metrics = (\<lambda>p. Raises NoSuchProcess), stats_now = ''2024-01-01T00:00:01'',
      stats_queries = healthy_queries, write_result = Write_ok\<rparr>"


text \<open>A round in which the host queries answer and the probed peer stays silent.\<close>

definition silent_round :: round_env where
  "silent_round = memory_fails_round\<lparr>history_queries := healthy_queries, probe := silent\<rparr>"


text \<open>A monitor after seven probes whose connection was refused.\<close>

definition seven_failures :: ApplicationMonitor where
  "seven_failures =
     snd (check_health_seq (ApplicationMonitor_init ''http://localhost:8000'') (replicate 7 refused))"


text \<open>
  The deployed server as \<^verbatim>\<open>process_iter\<close> reports it, a process whose name was
  withheld, and a shell; a round in which everything answers and no process matches.
\<close>

definition server_process :: Process where
  "server_process =
     \<lparr>pid = 4242, info = Inr \<lparr>info_name = Some ''python3'',
                               info_cmdline = Some [''python3'', ''server.py'']\<rparr>\<rparr>"

definition denied_process :: Process where
  "denied_process = \<lparr>pid = 1, info = Inr \<lparr>info_name = None, info_cmdline = None\<rparr>\<rparr>"

definition shell_process :: Process where
  "shell_process =
     \<lparr>pid = 77, info = Inr \<lparr>info_name = Some ''bash'', info_cmdline = Some [''-bash'']\<rparr>\<rparr>"

definition idle_round :: round_env where
  "idle_round =
     \<lparr>history_queries = healthy_queries, probe = not_found, process_table = [shell_process],
      process_metrics = (\<lambda>p. Raises NoSuchProcess), stats_now = ''2024-01-01T00:00:01'',
      stats_queries = healthy_queries, write_result = Write_ok\<rparr>"


text \<open>
  A round in which everything answers and the process table holds a process whose name
  was withheld and a shell: no process matches.
\<close>

definition denied_round :: round_env where
  "denied_round = idle_round\<lparr>process_table := [denied_process, shell_process]\<rparr>"



section \<open>Properties\<close>

subsection \<open>Bounded deques\<close>

lemma maxlen_deque_append: "maxlen (deque_append d x) = maxlen d"
  by (simp add: deque_append_def Let_def)

lemma items_deque_append:
  "items (deque_append d x) =
     (if length (items d) < maxlen d then items d @ [x] else tl (items d @ [x]))"
  by (simp add: deque_append_def Let_def)

lemma length_deque_append:
  "length (items d) \<le> maxlen d \<Longrightarrow>
   length (items (deque_append d x)) = min (Suc (length (items d))) (maxlen d)"
  by (auto simp: items_deque_append)

lemma maxlen_foldl_append: "maxlen (foldl deque_append d vs) = maxlen d"
  by (induction vs arbitrary: d) (simp_all add: maxlen_deque_append)

lemma items_deque_append_drop:
  "length (items d) \<le> maxlen d \<Longrightarrow>
   items (deque_append d x) = drop (Suc (length (items d)) - maxlen d) (items d @ [x])"
  by (cases "items d") (auto simp: items_deque_append Suc_diff_le)

lemma items_foldl_append:
  "length (items d) \<le> maxlen d \<Longrightarrow>
   items (foldl deque_append d vs) =
     drop (length (items d) + length vs - maxlen d) (items d @ vs)"
proof (induction vs arbitrary: d)
  case Nil
  then show ?case by simp
next
  case (Cons v vs)
  let ?d = "deque_append d v"
  let ?k = "Suc (length (items d)) - maxlen d"
  have len: "length (items ?d) \<le> maxlen ?d"
    using Cons.prems by (simp add: length_deque_append maxlen_deque_append)
  have step: "items ?d = drop ?k (items d @ [v])"
    using Cons.prems by (rule items_deque_append_drop)
  have k: "?k \<le> length (items d @ [v])" by simp
  have "items (foldl deque_append ?d vs) =
          drop (length (items ?d) + length vs - maxlen ?d) (items ?d @ vs)"
    using Cons.IH [OF len] .
  also have "items ?d @ vs = drop ?k (items d @ v # vs)"
  proof -
    have "drop ?k ((items d @ [v]) @ vs) = drop ?k (items d @ [v]) @ vs"
      using k by (simp only: drop_append diff_is_0_eq' drop_0)
    then show ?thesis by (simp add: step)
  qed
  also have "drop (length (items ?d) + length vs - maxlen ?d) (drop ?k (items d @ v # vs)) =
          drop (length (items d) + length (v # vs) - maxlen d) (items d @ v # vs)"
  proof -
    have "length (items ?d) + length vs - maxlen ?d + ?k =
            length (items d) + length (v # vs) - maxlen d"
      using Cons.prems by (simp add: length_deque_append maxlen_deque_append min_def ac_simps)
    then show ?thesis by (simp only: drop_drop)
  qed
  finally show ?case by simp
qed

lemma items_appends_new:
  "items (foldl deque_append (deque_new n) vs) = drop (length vs - n) vs"
  using items_foldl_append [of "deque_new n" vs] by (simp add: deque_new_def)

lemma length_foldl_append_new:
  "length (items (foldl deque_append (deque_new n) vs)) = min (length vs) n"
  by (simp add: items_appends_new min_def)

lemma hd_drop_nth: "k < length vs \<Longrightarrow> hd (drop k vs) = vs ! k"
  by (simp add: hd_drop_conv_nth)

text \<open>
  Claim C3. Every history buffer of the monitor is a bounded deque, of capacity 60 for
  the CPU, memory, disk and latency histories and 100 for the error FIFO. After the
  values \<open>vs\<close> have been appended to a new buffer of capacity \<open>n\<close>, the buffer holds
  the last \<open>min (length vs) n\<close> of them in insertion order; when more than \<open>n\<close> were
  appended, the oldest one kept is the \<open>(length vs - n + 1)\<close>-th appended. The length
  never exceeds \<open>n\<close>, and an append at capacity drops the oldest value only.
\<close>

theorem history_buffer_fifo:
  "cpu_history SystemMonitor_init = deque_new 60 \<and>
   memory_history SystemMonitor_init = deque_new 60 \<and>
   disk_history SystemMonitor_init = deque_new 60 \<and>
   response_times (ApplicationMonitor_init u) = deque_new 60 \<and>
   errors (ApplicationMonitor_init u) = deque_new 100 \<and>
   (let b = foldl deque_append (deque_new n) vs in
      maxlen b = n \<and>
      items b = drop (length vs - n) vs \<and>
      length (items b) = min (length vs) n \<and>
      length (items b) \<le> n \<and>
      (0 < n \<and> n < length vs \<longrightarrow> hd (items b) = vs ! (length vs - n))) \<and>
   (0 < maxlen d \<and> length (items d) \<le> maxlen d \<longrightarrow>
      items (deque_append d x) =
        (if length (items d) < maxlen d then items d @ [x] else tl (items d) @ [x]))"
proof -
  have init: "cpu_history SystemMonitor_init = deque_new 60 \<and>
      memory_history SystemMonitor_init = deque_new 60 \<and>
      disk_history SystemMonitor_init = deque_new 60 \<and>
      response_times (ApplicationMonitor_init u) = deque_new 60 \<and>
      errors (ApplicationMonitor_init u) = deque_new 100"
    by (simp add: SystemMonitor_init_def ApplicationMonitor_init_def)
  have oldest: "hd (drop (length vs - n) vs) = vs ! (length vs - n)" if "0 < n" "n < length vs"
    using that by (intro hd_drop_nth) simp
  have fold: "let b = foldl deque_append (deque_new n) vs in
      maxlen b = n \<and>
      items b = drop (length vs - n) vs \<and>
      length (items b) = min (length vs) n \<and>
      length (items b) \<le> n \<and>
      (0 < n \<and> n < length vs \<longrightarrow> hd (items b) = vs ! (length vs - n))"
  proof -
    have "maxlen (deque_new n :: 'a deque) = n" by (simp add: deque_new_def)
    with oldest show ?thesis
      by (simp add: Let_def maxlen_foldl_append items_appends_new min_def)
  qed
  have step: "items (deque_append d x) =
        (if length (items d) < maxlen d then items d @ [x] else tl (items d) @ [x])"
    if "0 < maxlen d" "length (items d) \<le> maxlen d"
  proof (cases "items d")
    case Nil
    with that show ?thesis by (simp add: items_deque_append)
  next
    case (Cons a as)
    then show ?thesis by (simp add: items_deque_append)
  qed
  from init fold step show ?thesis by blast
qed

theorem history_buffer_fifo_witness:
  "(0::nat) < 60 \<and> 60 < length [1 ..< 63 :: nat] \<and>
   hd (items (foldl deque_append (deque_new 60) [1 ..< 63 :: nat])) = 3 \<and>
   items (deque_append \<lparr>maxlen = 2, items = [10, 20 :: nat]\<rparr> 30) = [20, 30]"
proof -
  have nth: "[1 ..< 63 :: nat] ! 2 = 3" by simp
  show ?thesis
    using history_buffer_fifo [where n = 60 and vs = "[1 ..< 63 :: nat]"
        and d = "\<lparr>maxlen = 2, items = [10, 20 :: nat]\<rparr>" and x = 30] nth
    by (simp add: Let_def)
qed

subsection \<open>The health probe\<close>

lemma check_health_Fails:
  "peer_of env = Fails msg \<Longrightarrow>
   check_health am env =
     (Returns \<lparr>health_status = 0, health_response_time = 0, health_is_alive = False,
               health_error = Some msg\<rparr>,
      am\<lparr>errors := deque_append (errors am) \<lparr>err_time = now_iso env, err_error = msg\<rparr>\<rparr>)"
  by (simp add: check_health_def requests_get_def Let_def)

lemma check_health_Answers:
  "peer_of env = Answers code \<Longrightarrow>
   check_health am env =
     (Returns \<lparr>health_status = code,
               health_response_time = float_sub (time_end env) (time_start env),
               health_is_alive = (code = 200), health_error = None\<rparr>,
      am\<lparr>response_times :=
           deque_append (response_times am) (float_sub (time_end env) (time_start env))\<rparr>)"
  by (simp add: check_health_def requests_get_def Let_def)

lemma check_health_Silent:
  "peer_of env = Silent \<Longrightarrow> check_health am env = (Hangs, am)"
  by (simp add: check_health_def requests_get_def)

lemma check_health_seq_errors:
  assumes "\<forall>env \<in> set envs. peer_of env \<noteq> Silent"
    and "maxlen (errors am) = 100"
    and "length (items (errors am)) = min k 100"
  shows "\<exists>am'. check_health_seq am envs = (Returns (), am') \<and>
           maxlen (errors am') = 100 \<and>
           length (items (errors am')) = min (k + failures envs) 100"
  using assms
proof (induction envs arbitrary: am k)
  case Nil
  then show ?case by (simp add: failures_def)
next
  case (Cons env envs)
  show ?case
  proof (cases "peer_of env")
    case (Answers code)
    let ?am = "am\<lparr>response_times :=
           deque_append (response_times am) (float_sub (time_end env) (time_start env))\<rparr>"
    have "\<exists>am'. check_health_seq ?am envs = (Returns (), am') \<and>
           maxlen (errors am') = 100 \<and>
           length (items (errors am')) = min (k + failures envs) 100"
      using Cons.prems by (intro Cons.IH) simp_all
    then show ?thesis
      using Answers by (simp add: check_health_Answers failures_def)
  next
    case (Fails msg)
    let ?am = "am\<lparr>errors := deque_append (errors am) \<lparr>err_time = now_iso env, err_error = msg\<rparr>\<rparr>"
    have len: "length (items (errors ?am)) = min (Suc k) 100"
      using Cons.prems by (simp add: length_deque_append)
    have "\<exists>am'. check_health_seq ?am envs = (Returns (), am') \<and>
           maxlen (errors am') = 100 \<and>
           length (items (errors am')) = min (Suc k + failures envs) 100"
      using Cons.prems len by (intro Cons.IH) (simp_all add: maxlen_deque_append)
    then show ?thesis
      using Fails by (simp add: check_health_Fails failures_def)
  next
    case Silent
    with Cons.prems show ?thesis by simp
  qed
qed

text \<open>
  Claim C1. When the request of a probe fails with message \<open>msg\<close>, \<^verbatim>\<open>check_health\<close>
  appends exactly one error record, holding \<open>msg\<close> and the current timestamp, to the
  error FIFO, leaves the latency history as it was, and returns status 0, response
  time 0, not alive, and the message. After any sequence of completed probes on a new
  monitor, the length of the error FIFO is the smaller of the number of failed probes
  and 100.
\<close>

theorem failed_probe_recorded:
  "(peer_of env = Fails msg \<longrightarrow>
      (case check_health am env of (r, am') \<Rightarrow>
         r = Returns \<lparr>health_status = 0, health_response_time = 0, health_is_alive = False,
                      health_error = Some msg\<rparr> \<and>
         errors am' = deque_append (errors am) \<lparr>err_time = now_iso env, err_error = msg\<rparr> \<and>
         response_times am' = response_times am)) \<and>
   ((\<forall>env \<in> set envs. peer_of env \<noteq> Silent) \<longrightarrow>
      (case check_health_seq (ApplicationMonitor_init u) envs of (r, am') \<Rightarrow>
         r = Returns () \<and> length (items (errors am')) = min (failures envs) 100))"
proof -
  have seq: "case check_health_seq (ApplicationMonitor_init u) envs of (r, am') \<Rightarrow>
         r = Returns () \<and> length (items (errors am')) = min (failures envs) 100"
    if "\<forall>env \<in> set envs. peer_of env \<noteq> Silent"
    using check_health_seq_errors [OF that, of "ApplicationMonitor_init u" 0]
    by (auto simp: ApplicationMonitor_init_def deque_new_def)
  show ?thesis
    using seq by (simp add: check_health_Fails)
qed

theorem failed_probe_recorded_witness:
  "peer_of refused = Fails ''Connection refused'' \<and>
   list_all (\<lambda>env. peer_of env \<noteq> Silent) (replicate 3 refused) \<and>
   fst (check_health (ApplicationMonitor_init ''http://localhost:8000'') refused) =
     Returns \<lparr>health_status = 0, health_response_time = 0, health_is_alive = False,
              health_error = Some ''Connection refused''\<rparr> \<and>
   items (errors (snd (check_health (ApplicationMonitor_init ''http://localhost:8000'') refused))) =
     [\<lparr>err_time = ''2024-01-01T00:00:00'', err_error = ''Connection refused''\<rparr>] \<and>
   length (items (errors (snd (check_health_seq (ApplicationMonitor_init ''http://localhost:8000'')
      (replicate 3 refused))))) = 3"
proof -
  have p: "peer_of refused = Fails ''Connection refused''"
    by (simp add: refused_def)
  have f: "failures (replicate 3 refused) = 3"
    by (simp add: failures_def p)
  show ?thesis
    using failed_probe_recorded [where env = refused and msg = "''Connection refused''"
        and am = "ApplicationMonitor_init ''http://localhost:8000''"
        and u = "''http://localhost:8000''" and envs = "replicate 3 refused"] p f
    by (auto simp: ApplicationMonitor_init_def deque_new_def deque_append_def refused_def
        list_all_iff split: prod.splits)
qed

text \<open>
  Claim C7. When the request of a probe is answered with status \<open>code\<close>,
  \<^verbatim>\<open>check_health\<close> returns a record that is alive exactly when the status is 200 and
  whose response time is the difference of the two clock readings taken around the
  request, and it appends that response time to the latency history, whatever the
  status; the error FIFO is left as it was.
\<close>

theorem completed_probe_recorded:
  "peer_of env = Answers code \<longrightarrow>
     (case check_health am env of (r, am') \<Rightarrow>
        (\<exists>h. r = Returns h \<and>
           health_status h = code \<and>
           (health_is_alive h \<longleftrightarrow> health_status h = 200) \<and>
           health_response_time h = float_sub (time_end env) (time_start env) \<and>
           health_error h = None \<and>
           response_times am' = deque_append (response_times am) (health_response_time h) \<and>
           errors am' = errors am))"
  by (simp add: check_health_Answers)

theorem completed_probe_recorded_witness:
  "peer_of not_found = Answers 404 \<and>
   fst (check_health (ApplicationMonitor_init ''http://localhost:8000'') not_found) =
     Returns \<lparr>health_status = 404, health_response_time = 1, health_is_alive = False,
              health_error = None\<rparr> \<and>
   items (response_times (snd (check_health (ApplicationMonitor_init ''http://localhost:8000'')
      not_found))) = [1]"
proof -
  have p: "peer_of not_found = Answers 404"
    by (simp add: not_found_def)
  have t: "float_sub (time_end not_found) (time_start not_found) = 1"
    unfolding not_found_def by code_simp
  show ?thesis
    using completed_probe_recorded [where env = not_found and code = 404
        and am = "ApplicationMonitor_init ''http://localhost:8000''"] p t
    by (auto simp: ApplicationMonitor_init_def deque_new_def deque_append_def
        split: prod.splits)
qed

subsection \<open>Failures that leave the round\<close>

lemma collect_stats_Hangs:
  assumes "peer_of (probe env) = Silent"
    and "fst (update_history (system_monitor m) (history_queries env)) = Returns ()"
  shows "fst (collect_stats m env) = Hangs"
proof -
  obtain sm where u: "update_history (system_monitor m) (history_queries env) = (Returns (), sm)"
    using assms(2) by (cases "update_history (system_monitor m) (history_queries env)") simp
  show ?thesis
    using assms(1) by (simp add: collect_stats_def bind_def u check_health_Silent)
qed

lemma collect_stats_Raises:
  assumes "fst (update_history (system_monitor m) (history_queries env)) = Raises e"
  shows "collect_stats m env =
     (Raises e, m\<lparr>system_monitor := snd (update_history (system_monitor m) (history_queries env))\<rparr>)"
proof -
  obtain sm where u: "update_history (system_monitor m) (history_queries env) = (Raises e, sm)"
    using assms by (cases "update_history (system_monitor m) (history_queries env)") simp
  show ?thesis
    by (simp add: collect_stats_def bind_def u)
qed

lemma monitor_round_Hangs:
  "fst (collect_stats m env) = Hangs \<Longrightarrow> fst (monitor_round m w env) = Hangs"
  by (cases "collect_stats m env") (simp add: monitor_round_def)

lemma monitor_round_Raises:
  "collect_stats m env = (Raises e, m') \<Longrightarrow> monitor_round m w env = (Raises e, m', w)"
  by (simp add: monitor_round_def)

lemma monitor_first_round:
  "fst (monitor_round (m\<lparr>is_running := True\<rparr>) w env) = Hangs \<Longrightarrow>
     fst (monitor m w (env # envs)) = Hangs"
  "fst (monitor_round (m\<lparr>is_running := True\<rparr>) w env) = Raises e \<Longrightarrow>
     fst (monitor m w (env # envs)) = Raises e"
  by (cases "monitor_round (m\<lparr>is_running := True\<rparr>) w env"; simp add: monitor_def)+

text \<open>
  Claim C5, as the code has it. \<^verbatim>\<open>check_health\<close> issues its request without a
  timeout. It returns whenever the peer answers or the request fails; when the peer
  stays silent it never returns, and neither do \<^verbatim>\<open>collect_stats\<close>, the round and
  \<^verbatim>\<open>monitor\<close>. With a timeout the same request would not block.
\<close>

theorem probe_without_timeout:
  "(fst (check_health am env) = Hangs \<longleftrightarrow> requests_get (url am) None (peer_of env) = Hangs) \<and>
   (fst (check_health am env) = Hangs \<longleftrightarrow> peer_of env = Silent) \<and>
   (peer_of env \<noteq> Silent \<longrightarrow> (\<exists>h. fst (check_health am env) = Returns h)) \<and>
   requests_get u (Some t) p \<noteq> Hangs \<and>
   (peer_of (probe renv) = Silent \<and>
    fst (update_history (system_monitor m) (history_queries renv)) = Returns () \<longrightarrow>
      fst (collect_stats m renv) = Hangs \<and>
      fst (monitor_round m w renv) = Hangs \<and>
      fst (monitor m w (renv # renvs)) = Hangs)"
proof -
  have a: "fst (check_health am env) = Hangs \<longleftrightarrow> requests_get (url am) None (peer_of env) = Hangs"
    by (cases "peer_of env") (simp_all add: check_health_def requests_get_def Let_def)
  have b: "fst (check_health am env) = Hangs \<longleftrightarrow> peer_of env = Silent"
    by (cases "peer_of env") (simp_all add: check_health_def requests_get_def Let_def)
  have c: "\<exists>h. fst (check_health am env) = Returns h" if "peer_of env \<noteq> Silent"
    using that by (cases "peer_of env") (simp_all add: check_health_def requests_get_def Let_def)
  have d: "requests_get u (Some t) p \<noteq> Hangs"
    by (cases p) (simp_all add: requests_get_def)
  have e: "fst (collect_stats m renv) = Hangs \<and> fst (monitor_round m w renv) = Hangs \<and>
      fst (monitor m w (renv # renvs)) = Hangs"
    if "peer_of (probe renv) = Silent"
      and "fst (update_history (system_monitor m) (history_queries renv)) = Returns ()"
  proof -
    have "fst (collect_stats m renv) = Hangs"
      using that by (rule collect_stats_Hangs)
    moreover have "fst (collect_stats (m\<lparr>is_running := True\<rparr>) renv) = Hangs"
      using that by (intro collect_stats_Hangs) simp_all
    ultimately show ?thesis
      by (simp add: monitor_round_Hangs monitor_first_round)
  qed
  from a b c d e show ?thesis by blast
qed

theorem probe_without_timeout_witness:
  "peer_of not_found \<noteq> Silent \<and>
   (\<exists>h. fst (check_health (ApplicationMonitor_init ''http://localhost:8000'') not_found) = Returns h) \<and>
   peer_of (probe silent_round) = Silent \<and>
   fst (update_history (system_monitor (Monitor_init default_args)) (history_queries silent_round))
     = Returns () \<and>
   fst (monitor_round (Monitor_init default_args) fresh_world silent_round) = Hangs"
proof -
  have 1: "peer_of not_found \<noteq> Silent"
    by (simp add: not_found_def)
  have 2: "peer_of (probe silent_round) = Silent"
    by (simp add: silent_round_def silent_def)
  have 3: "fst (update_history (system_monitor (Monitor_init default_args))
      (history_queries silent_round)) = Returns ()"
    by (simp add: silent_round_def healthy_queries_def update_history_def get_cpu_usage_def
        get_memory_usage_def get_disk_usage_def usage_of_def Let_def)
  show ?thesis
    using probe_without_timeout [where env = not_found and renv = silent_round
        and am = "ApplicationMonitor_init ''http://localhost:8000''"
        and m = "Monitor_init default_args" and w = fresh_world] 1 2 3
    by simp
qed

text \<open>
  Against claim C5 as stated: with a silent peer the probe of a new monitor never
  returns, so no timeout bounds it.
\<close>

theorem silent_peer_hangs_probe:
  "fst (check_health (ApplicationMonitor_init ''http://localhost:8000'') silent) = Hangs"
  by (simp add: check_health_def requests_get_def silent_def)

lemma update_history_cases:
  "cpu_percent_query q = Raises e \<Longrightarrow> update_history sm q = (Raises e, sm)"
  "cpu_percent_query q = Returns c \<Longrightarrow> virtual_memory_query q = Raises e \<Longrightarrow>
     update_history sm q = (Raises e, sm\<lparr>cpu_history := deque_append (cpu_history sm) c\<rparr>)"
  "cpu_percent_query q = Returns c \<Longrightarrow> virtual_memory_query q = Returns mem \<Longrightarrow>
   disk_usage_query q = Raises e \<Longrightarrow>
     update_history sm q =
       (Raises e, sm\<lparr>cpu_history := deque_append (cpu_history sm) c,
                      memory_history := deque_append (memory_history sm) (raw_percent mem)\<rparr>)"
  "cpu_percent_query q = Returns c \<Longrightarrow> virtual_memory_query q = Returns mem \<Longrightarrow>
   disk_usage_query q = Returns disk \<Longrightarrow>
     update_history sm q =
       (Returns (), sm\<lparr>cpu_history := deque_append (cpu_history sm) c,
                        memory_history := deque_append (memory_history sm) (raw_percent mem),
                        disk_history := deque_append (disk_history sm) (raw_percent disk)\<rparr>)"
  by (simp_all add: update_history_def get_cpu_usage_def get_memory_usage_def
      get_disk_usage_def usage_of_def Let_def)

text \<open>
  Claim C4, as the code has it. \<^verbatim>\<open>update_history\<close> queries CPU, memory and disk
  in this order and has no handler: the first query that raises ends the call with
  that exception, the histories of the metrics before it have received their value,
  the failing metric and those after it are not sampled and nothing is marked
  unavailable. When the three queries answer, each history receives one value. An
  exception of \<^verbatim>\<open>update_history\<close> aborts the round: \<^verbatim>\<open>collect_stats\<close>, the round
  and \<^verbatim>\<open>monitor\<close> raise it, and the round writes, prints and logs nothing.
\<close>

theorem host_query_failure_aborts_round:
  "(cpu_percent_query q = Raises e \<longrightarrow> update_history sm q = (Raises e, sm)) \<and>
   (cpu_percent_query q = Returns c \<and> virtual_memory_query q = Raises e \<longrightarrow>
      update_history sm q = (Raises e, sm\<lparr>cpu_history := deque_append (cpu_history sm) c\<rparr>)) \<and>
   (cpu_percent_query q = Returns c \<and> virtual_memory_query q = Returns mem \<and>
    disk_usage_query q = Raises e \<longrightarrow>
      update_history sm q =
        (Raises e, sm\<lparr>cpu_history := deque_append (cpu_history sm) c,
                       memory_history := deque_append (memory_history sm) (raw_percent mem)\<rparr>)) \<and>
   (cpu_percent_query q = Returns c \<and> virtual_memory_query q = Returns mem \<and>
    disk_usage_query q = Returns disk \<longrightarrow>
      update_history sm q =
        (Returns (), sm\<lparr>cpu_history := deque_append (cpu_history sm) c,
                         memory_history := deque_append (memory_history sm) (raw_percent mem),
                         disk_history := deque_append (disk_history sm) (raw_percent disk)\<rparr>)) \<and>
   (fst (update_history (system_monitor m) (history_queries env)) = Raises e \<longrightarrow>
      fst (collect_stats m env) = Raises e \<and>
      fst (monitor_round m w env) = Raises e \<and>
      snd (snd (monitor_round m w env)) = w \<and>
      fst (monitor m w (env # envs)) = Raises e)"
proof -
  have round: "fst (collect_stats m env) = Raises e \<and>
      fst (monitor_round m w env) = Raises e \<and>
      snd (snd (monitor_round m w env)) = w \<and>
      fst (monitor m w (env # envs)) = Raises e"
    if "fst (update_history (system_monitor m) (history_queries env)) = Raises e"
  proof -
    have 1: "collect_stats m env =
        (Raises e, m\<lparr>system_monitor := snd (update_history (system_monitor m) (history_queries env))\<rparr>)"
      using that by (rule collect_stats_Raises)
    have "fst (update_history (system_monitor (m\<lparr>is_running := True\<rparr>)) (history_queries env)) = Raises e"
      using that by simp
    then have 2: "fst (monitor_round (m\<lparr>is_running := True\<rparr>) w env) = Raises e"
      by (simp add: monitor_round_Raises [OF collect_stats_Raises])
    show ?thesis
      using 1 2 by (simp add: monitor_round_Raises [OF 1] monitor_first_round)
  qed
  show ?thesis
    using round by (simp add: update_history_cases)
qed

theorem host_query_failure_aborts_round_witness:
  "cpu_percent_query memory_query_fails = Returns 50 \<and>
   virtual_memory_query memory_query_fails = Raises (OtherError ''virtual_memory failed'') \<and>
   fst (update_history (system_monitor (Monitor_init default_args))
          (history_queries memory_fails_round)) = Raises (OtherError ''virtual_memory failed'') \<and>
   update_history SystemMonitor_init memory_query_fails =
     (Raises (OtherError ''virtual_memory failed''),
      SystemMonitor_init\<lparr>cpu_history := deque_append (cpu_history SystemMonitor_init) 50\<rparr>) \<and>
   fst (monitor (Monitor_init default_args) fresh_world [memory_fails_round]) =
     Raises (OtherError ''virtual_memory failed'')"
proof -
  have 1: "cpu_percent_query memory_query_fails = Returns 50"
    by (simp add: memory_query_fails_def healthy_queries_def)
  have 2: "virtual_memory_query memory_query_fails = Raises (OtherError ''virtual_memory failed'')"
    by (simp add: memory_query_fails_def)
  have 3: "fst (update_history (system_monitor (Monitor_init default_args))
          (history_queries memory_fails_round)) = Raises (OtherError ''virtual_memory failed'')"
    by (simp add: memory_fails_round_def update_history_cases(2) [OF 1 2])
  show ?thesis
    using host_query_failure_aborts_round [where q = memory_query_fails and c = 50
        and e = "OtherError ''virtual_memory failed''" and sm = SystemMonitor_init
        and m = "Monitor_init default_args" and env = memory_fails_round
        and w = fresh_world and envs = "[]"] 1 2 3
    by simp
qed

text \<open>
  Against claim C4 as stated: when the memory query raises, the disk metric is not
  sampled and the round raises.
\<close>

theorem memory_failure_skips_disk_and_aborts:
  "update_history SystemMonitor_init memory_query_fails =
     (Raises (OtherError ''virtual_memory failed''),
      \<lparr>cpu_history = \<lparr>maxlen = 60, items = [50]\<rparr>,
       memory_history = \<lparr>maxlen = 60, items = []\<rparr>,
       disk_history = \<lparr>maxlen = 60, items = []\<rparr>\<rparr>) \<and>
   fst (monitor_round (Monitor_init default_args) fresh_world memory_fails_round) =
     Raises (OtherError ''virtual_memory failed'')"
proof -
  have 1: "cpu_percent_query memory_query_fails = Returns 50"
    by (simp add: memory_query_fails_def healthy_queries_def)
  have 2: "virtual_memory_query memory_query_fails = Raises (OtherError ''virtual_memory failed'')"
    by (simp add: memory_query_fails_def)
  have 3: "update_history SystemMonitor_init memory_query_fails =
     (Raises (OtherError ''virtual_memory failed''),
      SystemMonitor_init\<lparr>cpu_history := deque_append (cpu_history SystemMonitor_init) 50\<rparr>)"
    by (rule update_history_cases(2) [OF 1 2])
  have 4: "fst (update_history (system_monitor (Monitor_init default_args))
          (history_queries memory_fails_round)) = Raises (OtherError ''virtual_memory failed'')"
    by (simp add: memory_fails_round_def Monitor_init_def 3)
  have 5: "fst (monitor_round (Monitor_init default_args) fresh_world memory_fails_round) =
     Raises (OtherError ''virtual_memory failed'')"
    by (simp add: monitor_round_Raises [OF collect_stats_Raises [OF 4]])
  show ?thesis
    using 3 5 by (simp add: SystemMonitor_init_def deque_new_def deque_append_def)
qed

subsection \<open>Rounding to binary64\<close>

lemma rne_error: "\<bar>of_int (rne x) - x\<bar> \<le> 1 / 2"
proof -
  have "of_int \<lfloor>x\<rfloor> \<le> x" "x < of_int \<lfloor>x\<rfloor> + 1"
    by linarith+
  then show ?thesis
    by (auto simp: rne_def Let_def abs_le_iff)
qed

lemma rne_of_int [simp]: "rne (of_int k) = k"
  by (simp add: rne_def)

lemma rne_floor_le: "\<lfloor>x\<rfloor> \<le> rne x" and rne_le_floor: "rne x \<le> \<lfloor>x\<rfloor> + 1"
  by (simp_all add: rne_def Let_def)

lemma rne_mono: "x \<le> y \<Longrightarrow> rne x \<le> rne y"
proof -
  assume xy: "x \<le> y"
  then have f: "\<lfloor>x\<rfloor> \<le> \<lfloor>y\<rfloor>" by (rule floor_mono)
  show ?thesis
  proof (cases "\<lfloor>x\<rfloor> = \<lfloor>y\<rfloor>")
    case True
    with xy show ?thesis
      by (auto simp: rne_def Let_def)
  next
    case False
    with f have "\<lfloor>x\<rfloor> + 1 \<le> \<lfloor>y\<rfloor>" by simp
    with rne_le_floor [of x] rne_floor_le [of y] show ?thesis by linarith
  qed
qed

lemma fraction_between_powers:
  assumes "0 < p" and "0 < q"
  shows "(2::rat) powi (bitlen p - bitlen q - 1) \<le> of_int p / of_int q"
    and "(of_int p / of_int q :: rat) < 2 powi (bitlen p - bitlen q + 1)"
proof -
  define x :: rat where "x = of_int p / of_int q"
  define d where "d = bitlen p - bitlen q"
  have bp: "1 \<le> bitlen p" "1 \<le> bitlen q"
    using assms by (simp_all add: bitlen_alt_def)
  have "2 ^ nat (bitlen p - 1) \<le> p" "p < 2 ^ nat (bitlen p)"
    "2 ^ nat (bitlen q - 1) \<le> q" "q < 2 ^ nat (bitlen q)"
    using bitlen_bounds [OF assms(1)] bitlen_bounds [OF assms(2)] by simp_all
  then have "(of_int (2 ^ nat (bitlen p - 1)) :: rat) \<le> of_int p"
    "(of_int p :: rat) < of_int (2 ^ nat (bitlen p))"
    "(of_int (2 ^ nat (bitlen q - 1)) :: rat) \<le> of_int q"
    "(of_int q :: rat) < of_int (2 ^ nat (bitlen q))"
    by (simp_all only: of_int_le_iff of_int_less_iff)
  then have P: "(2::rat) powi (bitlen p - 1) \<le> of_int p" "of_int p < (2::rat) powi bitlen p"
    and Q: "(2::rat) powi (bitlen q - 1) \<le> of_int q" "of_int q < (2::rat) powi bitlen q"
    using bp by (simp_all add: power_int_nonneg_exp)
  have qpos: "(0::rat) < of_int q" using assms by simp
  have "x < 2 powi bitlen p / of_int q"
    unfolding x_def using P(2) qpos by (simp add: divide_strict_right_mono)
  also have "\<dots> \<le> 2 powi bitlen p / 2 powi (bitlen q - 1)"
    using Q(1) by (intro frac_le) simp_all
  also have "\<dots> = 2 powi (bitlen p - (bitlen q - 1))"
    by (rule power_int_diff [symmetric]) simp
  also have "bitlen p - (bitlen q - 1) = d + 1"
    by (simp add: d_def)
  finally show "(of_int p / of_int q :: rat) < 2 powi (bitlen p - bitlen q + 1)"
    by (simp add: x_def d_def)
  have "(2::rat) powi (d - 1) = 2 powi (bitlen p - 1 - bitlen q)"
    by (rule arg_cong [where f = "\<lambda>k. 2 powi k"]) (simp add: d_def)
  also have "\<dots> = 2 powi (bitlen p - 1) / 2 powi bitlen q"
    by (rule power_int_diff) simp
  also have "\<dots> \<le> 2 powi (bitlen p - 1) / of_int q"
    using Q(2) qpos by (intro frac_le) simp_all
  also have "\<dots> \<le> x"
    unfolding x_def using P(1) qpos by (simp add: divide_right_mono)
  finally show "(2::rat) powi (bitlen p - bitlen q - 1) \<le> of_int p / of_int q"
    by (simp add: x_def d_def)
qed

lemma ilog2_bounds:
  assumes "0 < x"
  shows "2 powi ilog2 x \<le> x \<and> x < 2 powi (ilog2 x + 1)"
proof -
  obtain p q where pq: "quotient_of x = (p, q)" by (cases "quotient_of x")
  have q: "0 < q" using pq by (rule quotient_of_denom_pos)
  have x: "x = of_int p / of_int q" using pq by (rule quotient_of_div)
  have p: "0 < p" using assms q by (simp add: x zero_less_divide_iff)
  have il: "ilog2 x = (if x < 2 powi (bitlen p - bitlen q) then bitlen p - bitlen q - 1
                       else bitlen p - bitlen q)"
    by (simp add: ilog2_def pq Let_def)
  show ?thesis
    using fraction_between_powers [OF p q] by (simp add: il x [symmetric])
qed

lemma pow2_less_cancel: "(2::rat) powi a < 2 powi b \<Longrightarrow> a < b"
proof (rule ccontr)
  assume "(2::rat) powi a < 2 powi b" and "\<not> a < b"
  then have "(2::rat) powi b \<le> 2 powi a"
    by (intro power_int_increasing) simp_all
  with \<open>(2::rat) powi a < 2 powi b\<close> show False by simp
qed

lemma ilog2_unique:
  assumes "2 powi e \<le> x" and "x < 2 powi (e + 1)"
  shows "ilog2 x = e"
proof -
  have "0 < (2::rat) powi e" by simp
  with assms(1) have pos: "0 < x" by linarith
  note b = ilog2_bounds [OF pos]
  have "(2::rat) powi e < 2 powi (ilog2 x + 1)"
    using assms(1) b by linarith
  then have 1: "e < ilog2 x + 1"
    by (rule pow2_less_cancel)
  have "(2::rat) powi ilog2 x < 2 powi (e + 1)"
    using assms(2) b by linarith
  then have 2: "ilog2 x < e + 1"
    by (rule pow2_less_cancel)
  from 1 2 show ?thesis by simp
qed


lemma fl_pos:
  assumes "2 powi e \<le> x" and "x < 2 powi (e + 1)"
  shows "fl x = of_int (rne (x / 2 powi (max e (- 1022) - 52))) * 2 powi (max e (- 1022) - 52)"
proof -
  have "0 < (2::rat) powi e" by simp
  with assms(1) have pos: "0 < x" by linarith
  have "ilog2 \<bar>x\<bar> = e"
    using assms pos by (intro ilog2_unique) simp_all
  with pos show ?thesis
    by (simp add: fl_def Let_def)
qed

lemma rne_divide:
  assumes "0 < b"
  shows "rne (of_int a / of_int b) =
     (let f = a div b; r = a mod b in
        if 2 * r < b then f else if b < 2 * r then f + 1 else if even f then f else f + 1)"
proof -
  have f: "\<lfloor>(of_int a / of_int b :: rat)\<rfloor> = a div b"
    by (simp add: floor_divide_of_int_eq)
  have "of_int a = (of_int (a div b) * of_int b + of_int (a mod b) :: rat)"
    by (metis of_int_add of_int_mult div_mult_mod_eq)
  then have r: "(of_int a / of_int b :: rat) - of_int (a div b) = of_int (a mod b) / of_int b"
    using assms by (simp add: field_simps)
  have lt: "(of_int (a mod b) / of_int b :: rat) < 1 / 2 \<longleftrightarrow> 2 * (a mod b) < b"
  proof -
    have "(of_int (a mod b) / of_int b :: rat) < 1 / 2 \<longleftrightarrow>
            (of_int (2 * (a mod b)) :: rat) < of_int b"
      using assms by (simp add: field_simps)
    then show ?thesis by (simp only: of_int_less_iff)
  qed
  have gt: "1 / 2 < (of_int (a mod b) / of_int b :: rat) \<longleftrightarrow> b < 2 * (a mod b)"
  proof -
    have "1 / 2 < (of_int (a mod b) / of_int b :: rat) \<longleftrightarrow>
            (of_int b :: rat) < of_int (2 * (a mod b))"
      using assms by (simp add: field_simps)
    then show ?thesis by (simp only: of_int_less_iff)
  qed
  show ?thesis
    unfolding rne_def f Let_def r lt gt ..
qed

lemma rne_numeral_divide:
  "rne (numeral a / numeral b) =
     (let f = numeral a div numeral b :: int; r = numeral a mod numeral b :: int in
        if 2 * r < numeral b then f else if numeral b < 2 * r then f + 1
        else if even f then f else f + 1)"
  using rne_divide [of "numeral b" "numeral a"] by simp

lemma rne_numeral: "rne (numeral a) = numeral a"
  using rne_of_int [of "numeral a"] by simp

lemmas rne_eval = rne_numeral_divide rne_numeral Let_def

lemma fl_100: "fl 100 = 100"
  by (simp add: fl_pos [where e = 6] rne_eval)

lemma fl_1: "fl 1 = 1"
  by (simp add: fl_pos [where e = 0] rne_def)

lemma fl_7_100: "fl (7 / 100) = 1261007895663739 / 18014398509481984"
  by (simp add: fl_pos [where e = "- 4"] rne_eval)

lemma ilog2_fraction:
  assumes "0 < p" and "0 < q"
  shows "ilog2 (of_int p / of_int q) =
     (let d = bitlen p - bitlen q in if (of_int p / of_int q :: rat) < 2 powi d then d - 1 else d)"
proof (cases "(of_int p / of_int q :: rat) < 2 powi (bitlen p - bitlen q)")
  case True
  with fraction_between_powers(1) [OF assms]
  have "ilog2 (of_int p / of_int q) = bitlen p - bitlen q - 1"
    by (intro ilog2_unique) simp_all
  with True show ?thesis by (simp add: Let_def)
next
  case False
  with fraction_between_powers(2) [OF assms]
  have "ilog2 (of_int p / of_int q) = bitlen p - bitlen q"
    by (intro ilog2_unique) simp_all
  with False show ?thesis by (simp add: Let_def)
qed

text \<open>
  Rules that let the simplifier compute \<open>fl\<close> on numerals, the binade found through
  \<open>bitlen\<close> as the definition of \<open>ilog2\<close> does.
\<close>

lemma ilog2_numeral_divide:
  "ilog2 (numeral a / numeral b) =
     (let d = bitlen (numeral a) - bitlen (numeral b) in
        if (numeral a / numeral b :: rat) < 2 powi d then d - 1 else d)"
  using ilog2_fraction [of "numeral a" "numeral b"] by simp

lemma ilog2_numeral:
  "ilog2 (numeral a) =
     (let d = bitlen (numeral a) - 1 in if (numeral a :: rat) < 2 powi d then d - 1 else d)"
  using ilog2_fraction [of "numeral a" 1] by (simp add: bitlen_alt_def)

lemma bitlen_numeral:
  "bitlen (numeral k) = (if numeral k div 2 = (0::int) then 1 else bitlen (numeral k div 2) + 1)"
  by (subst compute_bitlen) simp

lemma fl_numeral_divide:
  "fl (numeral a / numeral b) =
     (let u = 2 powi (max (ilog2 (numeral a / numeral b)) (- 1022) - 52)
      in of_int (rne (numeral a / numeral b / u)) * u)"
  by (simp add: fl_def Let_def)

lemma fl_numeral:
  "fl (numeral a) =
     (let u = 2 powi (max (ilog2 (numeral a)) (- 1022) - 52) in of_int (rne (numeral a / u)) * u)"
  by (simp add: fl_def Let_def)

lemma bitlen_1: "bitlen 1 = 1"
  by (simp add: bitlen_alt_def)

lemma ilog2_one_divide:
  "ilog2 (1 / numeral b) =
     (let d = 1 - bitlen (numeral b) in if (1 / numeral b :: rat) < 2 powi d then d - 1 else d)"
  using ilog2_fraction [of 1 "numeral b"] by (simp add: bitlen_1)

lemma fl_one_divide:
  "fl (1 / numeral b) =
     (let u = 2 powi (max (ilog2 (1 / numeral b)) (- 1022) - 52)
      in of_int (rne (1 / numeral b / u)) * u)"
  by (simp add: fl_def Let_def)

lemmas fl_eval = fl_numeral_divide fl_numeral fl_one_divide fl_1
  ilog2_numeral_divide ilog2_numeral ilog2_one_divide bitlen_numeral bitlen_1
  rne_numeral_divide rne_numeral Let_def

lemma pow2_add: "(2::rat) powi (a + b) = 2 powi a * 2 powi b"
  by (rule power_int_add) simp

lemma pow2_shift: "(2::rat) powi (e + k) = 2 powi (k + 52) * 2 powi (e - 52)"
proof -
  have "(2::rat) powi (e + k) = 2 powi ((k + 52) + (e - 52))"
    by (rule arg_cong [where f = "\<lambda>k. 2 powi k"]) simp
  then show ?thesis by (simp only: pow2_add)
qed

lemma ilog2_mono:
  assumes "0 < x" and "x \<le> y"
  shows "ilog2 x \<le> ilog2 y"
proof -
  have "0 < y" using assms by simp
  have "(2::rat) powi ilog2 x \<le> x" using ilog2_bounds [OF assms(1)] by simp
  also have "x \<le> y" by fact
  also have "y < 2 powi (ilog2 y + 1)" using ilog2_bounds [OF \<open>0 < y\<close>] by simp
  finally have "ilog2 x < ilog2 y + 1" by (rule pow2_less_cancel)
  then show ?thesis by simp
qed

lemma fl_nonneg: "0 \<le> x \<Longrightarrow> 0 \<le> fl x"
proof -
  assume x: "0 \<le> x"
  define u :: rat where "u = 2 powi (max (ilog2 \<bar>x\<bar>) (- 1022) - 52)"
  have u: "0 < u" by (simp add: u_def)
  have "0 \<le> x / u" using x u by simp
  then have "0 \<le> \<lfloor>x / u\<rfloor>" by simp
  with rne_floor_le [of "x / u"] have "0 \<le> rne (x / u)" by linarith
  then have "0 \<le> of_int (rne (x / u)) * u" using u by simp
  then show ?thesis by (simp add: fl_def Let_def u_def)
qed

lemma fl_upper:
  assumes "0 < x"
  shows "fl x \<le> 2 powi (max (ilog2 x) (- 1022) + 1)"
proof -
  define E where "E = max (ilog2 x) (- 1022)"
  define u :: rat where "u = 2 powi (E - 52)"
  have u: "0 < u" by (simp add: u_def)
  have fl: "fl x = of_int (rne (x / u)) * u"
    using assms by (simp add: fl_def Let_def u_def E_def)
  have "x < 2 powi (ilog2 x + 1)" using ilog2_bounds [OF assms] by simp
  also have "(2::rat) powi (ilog2 x + 1) \<le> 2 powi (E + 1)"
    by (intro power_int_increasing) (simp_all add: E_def)
  also have "(2::rat) powi (E + 1) = 2 powi 53 * u"
    using pow2_shift [of E 1] by (simp add: u_def)
  finally have "x / u \<le> 2 powi 53" using u by (simp add: field_simps)
  then have "x / u \<le> of_int (2 ^ 53)" by simp
  then have "rne (x / u) \<le> rne (of_int (2 ^ 53))" by (rule rne_mono)
  then have "rne (x / u) \<le> 2 ^ 53" by (simp only: rne_of_int)
  then have "(of_int (rne (x / u)) :: rat) \<le> of_int (2 ^ 53)" by (simp only: of_int_le_iff)
  then have "of_int (rne (x / u)) * u \<le> of_int (2 ^ 53) * u"
    using u by (simp only: mult_le_cancel_right_pos)
  also have "of_int (2 ^ 53) * u = (2::rat) powi 53 * u" by simp
  also have "\<dots> = 2 powi (E + 1)"
    using pow2_shift [of E 1] by (simp add: u_def)
  finally show ?thesis by (simp add: fl E_def)
qed

lemma fl_lower:
  assumes "0 < x" and "- 1022 \<le> ilog2 x"
  shows "2 powi ilog2 x \<le> fl x"
proof -
  define E where "E = ilog2 x"
  define u :: rat where "u = 2 powi (E - 52)"
  have u: "0 < u" by (simp add: u_def)
  have fl: "fl x = of_int (rne (x / u)) * u"
    using assms by (simp add: fl_def Let_def u_def E_def max_def)
  have pw: "(2::rat) powi E = 2 powi 52 * u"
    using pow2_shift [of E 0] by (simp add: u_def)
  have "(2::rat) powi E \<le> x" using ilog2_bounds [OF assms(1)] by (simp add: E_def)
  then have "2 powi 52 \<le> x / u" using u by (simp add: pw field_simps)
  then have "of_int (2 ^ 52) \<le> x / u" by simp
  then have "rne (of_int (2 ^ 52)) \<le> rne (x / u)" by (rule rne_mono)
  then have "2 ^ 52 \<le> rne (x / u)" by (simp only: rne_of_int)
  then have "(of_int (2 ^ 52) :: rat) \<le> of_int (rne (x / u))" by (simp only: of_int_le_iff)
  then have "of_int (2 ^ 52) * u \<le> of_int (rne (x / u)) * u"
    using u by (simp only: mult_le_cancel_right_pos)
  moreover have "of_int (2 ^ 52) * u = (2::rat) powi E" by (simp add: pw)
  ultimately show ?thesis by (simp add: fl E_def)
qed

lemma fl_mono:
  assumes "0 \<le> x" and "x \<le> y"
  shows "fl x \<le> fl y"
proof (cases "x = 0")
  case True
  with assms fl_nonneg [of y] show ?thesis by (simp add: fl_def)
next
  case False
  with assms have x: "0 < x" and y: "0 < y" by simp_all
  define Ex where "Ex = max (ilog2 x) (- 1022)"
  define Ey where "Ey = max (ilog2 y) (- 1022)"
  have le: "Ex \<le> Ey"
    using ilog2_mono [OF x assms(2)] by (simp add: Ex_def Ey_def)
  show ?thesis
  proof (cases "Ex = Ey")
    case True
    define u :: rat where "u = 2 powi (Ex - 52)"
    have u: "0 < u" by (simp add: u_def)
    have "x / u \<le> y / u" using assms(2) u by (simp add: divide_right_mono)
    then have "rne (x / u) \<le> rne (y / u)" by (rule rne_mono)
    then have "(of_int (rne (x / u)) :: rat) \<le> of_int (rne (y / u))"
      by (simp only: of_int_le_iff)
    then have "of_int (rne (x / u)) * u \<le> of_int (rne (y / u)) * u"
      using u by (simp only: mult_le_cancel_right_pos)
    then show ?thesis
      using x y True by (simp add: fl_def Let_def u_def Ex_def Ey_def)
  next
    case False
    with le have lt: "Ex < Ey" by simp
    then have iy: "Ey = ilog2 y" "- 1022 \<le> ilog2 y"
      by (simp_all add: Ex_def Ey_def max_def split: if_splits)
    have "fl x \<le> 2 powi (Ex + 1)"
      using fl_upper [OF x] by (simp add: Ex_def)
    also have "(2::rat) powi (Ex + 1) \<le> 2 powi Ey"
      using lt by (intro power_int_increasing) simp_all
    also have "\<dots> \<le> fl y"
      using fl_lower [OF y iy(2)] by (simp add: iy(1))
    finally show ?thesis .
  qed
qed

lemma fl_error:
  assumes "0 < x"
  shows "\<bar>fl x - x\<bar> \<le> 2 powi (max (ilog2 x) (- 1022) - 53)"
proof -
  define E where "E = max (ilog2 x) (- 1022)"
  define u :: rat where "u = 2 powi (E - 52)"
  have u: "0 < u" by (simp add: u_def)
  have fl: "fl x = of_int (rne (x / u)) * u"
    using assms by (simp add: fl_def Let_def u_def E_def)
  have "fl x - x = (of_int (rne (x / u)) - x / u) * u"
    using u by (simp add: fl field_simps)
  then have "\<bar>fl x - x\<bar> = \<bar>of_int (rne (x / u)) - x / u\<bar> * u"
    using u by (simp add: abs_mult)
  also have "\<dots> \<le> 1 / 2 * u"
    using rne_error [of "x / u"] u by (simp only: mult_le_cancel_right_pos)
  also have "1 / 2 * u = 2 powi (E - 53)"
  proof -
    have "(2::rat) powi (E - 52) = 2 powi (E - 53 + 1)" by simp
    also have "\<dots> = 2 powi (E - 53) * 2 powi 1" by (rule pow2_add)
    finally show ?thesis by (simp add: u_def)
  qed
  finally show ?thesis by (simp add: E_def)
qed

subsection \<open>The average response time\<close>









subsection \<open>The error rate\<close>

lemma get_error_rate_eq:
  "get_error_rate am =
     Returns (if items (errors am) = [] then 0
              else fl (fl (of_nat (length (items (errors am))) / 100) * 100))"
  by (simp add: get_error_rate_def int_truediv_def float_mul_def)

lemma rate_1: "fl (fl (1 / 100) * 100) = 1"
  by (simp add: fl_eval)

lemma rate_table_list:
  "list_all (\<lambda>n. fl (fl (of_nat n / 100) * 100) = of_nat n + rate_deviation n) [2 ..< 101]"
  by (simp add: fl_eval rate_deviation_def)

lemma rate_table:
  assumes "0 < n" and "n \<le> 100"
  shows "fl (fl (of_nat n / 100) * 100) = of_nat n + rate_deviation n"
proof (cases "n = 1")
  case True
  then show ?thesis by (simp add: rate_1 rate_deviation_def)
next
  case False
  with assms have "n \<in> {2 ..< 101}" by auto
  then have "n \<in> set [2 ..< 101]" by (simp only: set_upt)
  with rate_table_list show ?thesis
    unfolding list_all_iff by blast
qed

lemma rate_mono:
  assumes "m \<le> n"
  shows "(if m = 0 then 0 else fl (fl (of_nat m / 100) * 100))
       \<le> (if n = 0 then 0 else fl (fl (of_nat n / 100) * 100))"
proof -
  have nonneg: "0 \<le> fl (fl (of_nat k / 100) * 100)" for k :: nat
    by (intro fl_nonneg mult_nonneg_nonneg) simp_all
  have "fl (of_nat m / 100) \<le> fl (of_nat n / 100)"
    using assms by (intro fl_mono) simp_all
  then have "fl (fl (of_nat m / 100) * 100) \<le> fl (fl (of_nat n / 100) * 100)"
    by (intro fl_mono mult_nonneg_nonneg fl_nonneg) simp_all
  with nonneg assms show ?thesis by auto
qed

lemma length_errors_seven_failures: "length (items (errors seven_failures)) = 7"
proof -
  have "\<forall>env \<in> set (replicate 7 refused). peer_of env \<noteq> Silent"
    by (simp add: refused_def)
  from check_health_seq_errors [OF this, of "ApplicationMonitor_init ''http://localhost:8000''" 0]
  show ?thesis
    by (auto simp: seven_failures_def ApplicationMonitor_init_def deque_new_def failures_def
        refused_def)
qed

lemma rate_7: "fl (fl (7 / 100) * 100) = 7 + 1 / 2 ^ 50"
  by (simp add: fl_7_100 fl_pos [where e = 2] rne_eval)

lemma get_error_rate_seven_failures: "get_error_rate seven_failures = Returns (7 + 1 / 2 ^ 50)"
proof -
  have "items (errors seven_failures) \<noteq> []"
    using length_errors_seven_failures by auto
  then show ?thesis
    using rate_7 by (simp add: get_error_rate_eq length_errors_seven_failures)
qed

lemma rate_deviation_small: "\<bar>rate_deviation n\<bar> \<le> 1 / 2 ^ 47"
  by (simp add: rate_deviation_def)

lemma rate_deviation_zero_iff: "rate_deviation n = 0 \<longleftrightarrow> n \<notin> {7, 14, 28, 29, 55, 56, 57, 58}"
  by (simp add: rate_deviation_def)

lemma rate_deviation_range:
  assumes "n \<le> 100"
  shows "0 \<le> of_nat n + rate_deviation n" and "of_nat n + rate_deviation n \<le> 100"
proof -
  show "0 \<le> of_nat n + rate_deviation n"
    by (simp add: rate_deviation_def)
  show "of_nat n + rate_deviation n \<le> 100"
  proof (cases "n = 100")
    case True
    then show ?thesis by (simp add: rate_deviation_def)
  next
    case False
    with assms have "n \<le> 99" by simp
    then have "(of_nat n :: rat) \<le> of_nat 99" by (simp only: of_nat_le_iff)
    moreover have "rate_deviation n \<le> 1" using rate_deviation_small [of n] by simp
    ultimately show ?thesis by simp
  qed
qed

text \<open>
  Claim C2, as the code has it. For every state of the error FIFO, with \<open>n \<le> 100\<close>
  entries, \<^verbatim>\<open>get_error_rate\<close> returns 0 when the FIFO is empty and otherwise the
  float \<^verbatim>\<open>(n / 100) * 100\<close>, two rounded binary64 operations. The value lies between
  0 and 100. It is the count \<open>n\<close> itself except at the counts 7, 14, 28, 29, 55, 56, 57
  and 58, where the two roundings leave an error of one unit in the last place, at
  most \<open>2^-47\<close>.
\<close>

theorem error_rate_occupancy:
  "length (items (errors am)) \<le> 100 \<longrightarrow>
     (\<exists>r. get_error_rate am = Returns r \<and>
        r = (if items (errors am) = [] then 0
             else fl (fl (of_nat (length (items (errors am))) / 100) * 100)) \<and>
        r = of_nat (length (items (errors am))) + rate_deviation (length (items (errors am))) \<and>
        (items (errors am) = [] \<longrightarrow> r = 0) \<and>
        0 \<le> r \<and> r \<le> 100 \<and>
        (r = of_nat (length (items (errors am))) \<longleftrightarrow>
           length (items (errors am)) \<notin> {7, 14, 28, 29, 55, 56, 57, 58}) \<and>
        \<bar>r - of_nat (length (items (errors am)))\<bar> \<le> 1 / 2 ^ 47)"
proof
  assume le: "length (items (errors am)) \<le> 100"
  let ?n = "length (items (errors am))"
  let ?r = "of_nat ?n + rate_deviation ?n :: rat"
  have r: "get_error_rate am = Returns ?r"
    and f: "?r = (if items (errors am) = [] then 0 else fl (fl (of_nat ?n / 100) * 100))"
  proof -
    show f: "?r = (if items (errors am) = [] then 0 else fl (fl (of_nat ?n / 100) * 100))"
    proof (cases "items (errors am) = []")
      case True
      then show ?thesis by (simp add: rate_deviation_def)
    next
      case False
      then have "0 < ?n" by simp
      from rate_table [OF this le] False show ?thesis by simp
    qed
    show "get_error_rate am = Returns ?r"
      unfolding f by (rule get_error_rate_eq)
  qed
  have z: "items (errors am) = [] \<longrightarrow> ?r = 0"
    by (simp add: rate_deviation_def)
  have e: "?r = of_nat ?n \<longleftrightarrow> ?n \<notin> {7, 14, 28, 29, 55, 56, 57, 58}"
    using rate_deviation_zero_iff [of ?n] by simp
  have d: "\<bar>?r - of_nat ?n\<bar> \<le> 1 / 2 ^ 47"
    using rate_deviation_small [of ?n] by simp
  from r f z e d rate_deviation_range [OF le]
  show "\<exists>r. get_error_rate am = Returns r \<and>
        r = (if items (errors am) = [] then 0
             else fl (fl (of_nat (length (items (errors am))) / 100) * 100)) \<and>
        r = of_nat (length (items (errors am))) + rate_deviation (length (items (errors am))) \<and>
        (items (errors am) = [] \<longrightarrow> r = 0) \<and>
        0 \<le> r \<and> r \<le> 100 \<and>
        (r = of_nat (length (items (errors am))) \<longleftrightarrow>
           length (items (errors am)) \<notin> {7, 14, 28, 29, 55, 56, 57, 58}) \<and>
        \<bar>r - of_nat (length (items (errors am)))\<bar> \<le> 1 / 2 ^ 47"
    by blast
qed

theorem error_rate_occupancy_witness:
  "length (items (errors seven_failures)) \<le> 100 \<and>
   length (items (errors seven_failures)) = 7 \<and>
   get_error_rate seven_failures = Returns (7 + 1 / 2 ^ 50)"
proof -
  have "rate_deviation 7 = 1 / 2 ^ 50" by (simp add: rate_deviation_def)
  then show ?thesis
    using error_rate_occupancy [of seven_failures]
    by (auto simp: length_errors_seven_failures)
qed

text \<open>
  Against claim C2 as stated: after seven failed probes the FIFO holds seven entries
  and the error rate is \<open>7 + 2^-50\<close> (printed \<^verbatim>\<open>7.000000000000001\<close>), not 7.
\<close>

theorem error_rate_of_seven_is_not_seven:
  "length (items (errors seven_failures)) = 7 \<and>
   get_error_rate seven_failures = Returns (7 + 1 / 2 ^ 50) \<and>
   get_error_rate seven_failures \<noteq> Returns 7"
  by (simp add: get_error_rate_seven_failures length_errors_seven_failures)

lemma get_error_rate_mono:
  assumes "length (items (errors am)) \<le> length (items (errors am'))"
  shows "\<exists>r r'. get_error_rate am = Returns r \<and> get_error_rate am' = Returns r' \<and> r \<le> r'"
  using rate_mono [OF assms] by (simp add: get_error_rate_eq)

lemma check_health_errors:
  "errors (snd (check_health am env)) = errors am \<or>
   (\<exists>msg. peer_of env = Fails msg \<and>
      errors (snd (check_health am env)) =
        deque_append (errors am) \<lparr>err_time = now_iso env, err_error = msg\<rparr>)"
  by (cases "peer_of env")
     (simp_all add: check_health_Answers check_health_Fails check_health_Silent)

lemma collect_stats_app_monitor:
  "app_monitor (snd (collect_stats m env)) = app_monitor m \<or>
   app_monitor (snd (collect_stats m env)) = snd (check_health (app_monitor m) (probe env))"
  by (auto simp: collect_stats_def bind_def split: prod.splits outcome.splits list.splits)

lemma monitor_round_monitor: "fst (snd (monitor_round m w env)) = snd (collect_stats m env)"
  by (cases "collect_stats m env"; cases "fst (collect_stats m env)")
     (simp_all add: monitor_round_def Let_def)

lemma failures_append: "failures (envs @ envs') = failures envs + failures envs'"
  by (simp add: failures_def)

lemma length_errors_check_health:
  assumes "length (items (errors am)) \<le> maxlen (errors am)"
  shows "length (items (errors am)) \<le> length (items (errors (snd (check_health am env))))"
  using check_health_errors [of am env] assms
  by (auto simp: length_deque_append)

lemma maxlen_errors_seven_failures: "maxlen (errors seven_failures) = 100"
proof -
  have "\<forall>env \<in> set (replicate 7 refused). peer_of env \<noteq> Silent"
    by (simp add: refused_def)
  from check_health_seq_errors [OF this, of "ApplicationMonitor_init ''http://localhost:8000''" 0]
  show ?thesis
    by (auto simp: seven_failures_def ApplicationMonitor_init_def deque_new_def)
qed

text \<open>
  Claim C10. A probe leaves the error FIFO as it is or appends one record to it, which
  at capacity 100 drops the oldest record only; a round changes the application
  monitor through \<^verbatim>\<open>check_health\<close> alone. Hence the error rate after a probe is
  never below the error rate before it, and along every sequence of completed probes
  on a new monitor the error rate never decreases, whatever the later probes answer.
\<close>

theorem error_rate_never_decreases:
  "(errors (snd (check_health am env)) = errors am \<or>
    (\<exists>rec. errors (snd (check_health am env)) = deque_append (errors am) rec)) \<and>
   (app_monitor (fst (snd (monitor_round m w renv))) = app_monitor m \<or>
    app_monitor (fst (snd (monitor_round m w renv))) =
      snd (check_health (app_monitor m) (probe renv))) \<and>
   (maxlen (errors am) = 100 \<and> length (items (errors am)) \<le> 100 \<longrightarrow>
      items (deque_append (errors am) rec) =
        (if length (items (errors am)) < 100 then items (errors am) @ [rec]
         else tl (items (errors am)) @ [rec])) \<and>
   (length (items (errors am)) \<le> maxlen (errors am) \<longrightarrow>
      (\<exists>r r'. get_error_rate am = Returns r \<and>
               get_error_rate (snd (check_health am env)) = Returns r' \<and> r \<le> r')) \<and>
   ((\<forall>e \<in> set (envs @ envs'). peer_of e \<noteq> Silent) \<longrightarrow>
      (\<exists>r r'. get_error_rate (snd (check_health_seq (ApplicationMonitor_init u) envs)) = Returns r \<and>
               get_error_rate (snd (check_health_seq (ApplicationMonitor_init u) (envs @ envs')))
                 = Returns r' \<and> r \<le> r'))"
proof -
  have a: "errors (snd (check_health am env)) = errors am \<or>
      (\<exists>rec. errors (snd (check_health am env)) = deque_append (errors am) rec)"
    using check_health_errors [of am env] by blast
  have b: "app_monitor (fst (snd (monitor_round m w renv))) = app_monitor m \<or>
      app_monitor (fst (snd (monitor_round m w renv))) =
        snd (check_health (app_monitor m) (probe renv))"
    using collect_stats_app_monitor [of m renv] by (simp add: monitor_round_monitor)
  have c: "items (deque_append (errors am) rec) =
        (if length (items (errors am)) < 100 then items (errors am) @ [rec]
         else tl (items (errors am)) @ [rec])"
    if "maxlen (errors am) = 100" "length (items (errors am)) \<le> 100"
  proof (cases "items (errors am)")
    case Nil
    with that show ?thesis by (simp add: items_deque_append)
  next
    case (Cons x xs)
    with that show ?thesis by (simp add: items_deque_append)
  qed
  have d: "\<exists>r r'. get_error_rate am = Returns r \<and>
               get_error_rate (snd (check_health am env)) = Returns r' \<and> r \<le> r'"
    if "length (items (errors am)) \<le> maxlen (errors am)"
    using that by (intro get_error_rate_mono length_errors_check_health)
  have e: "\<exists>r r'. get_error_rate (snd (check_health_seq (ApplicationMonitor_init u) envs)) = Returns r \<and>
               get_error_rate (snd (check_health_seq (ApplicationMonitor_init u) (envs @ envs')))
                 = Returns r' \<and> r \<le> r'"
    if "\<forall>e \<in> set (envs @ envs'). peer_of e \<noteq> Silent"
  proof -
    let ?init = "ApplicationMonitor_init u"
    have init: "maxlen (errors ?init) = 100" "length (items (errors ?init)) = min 0 100"
      by (simp_all add: ApplicationMonitor_init_def deque_new_def)
    have 1: "\<forall>e \<in> set envs. peer_of e \<noteq> Silent" using that by simp
    from check_health_seq_errors [OF 1 init]
    have l1: "length (items (errors (snd (check_health_seq ?init envs)))) = min (failures envs) 100"
      by auto
    from check_health_seq_errors [OF that init]
    have l2: "length (items (errors (snd (check_health_seq ?init (envs @ envs'))))) =
        min (failures (envs @ envs')) 100"
      by auto
    show ?thesis
      by (rule get_error_rate_mono) (simp add: l1 l2 failures_append)
  qed
  from a b c d e show ?thesis by blast
qed

theorem error_rate_never_decreases_witness:
  "maxlen (errors seven_failures) = 100 \<and>
   length (items (errors seven_failures)) \<le> 100 \<and>
   length (items (errors seven_failures)) \<le> maxlen (errors seven_failures) \<and>
   list_all (\<lambda>e. peer_of e \<noteq> Silent) (replicate 7 refused @ [not_found]) \<and>
   (\<exists>r'. get_error_rate (snd (check_health seven_failures not_found)) = Returns r' \<and>
         7 + 1 / 2 ^ 50 \<le> r') \<and>
   (\<exists>r'. get_error_rate (snd (check_health_seq (ApplicationMonitor_init ''http://localhost:8000'')
            (replicate 7 refused @ [not_found]))) = Returns r' \<and> 7 + 1 / 2 ^ 50 \<le> r')"
proof -
  have 1: "\<forall>e \<in> set (replicate 7 refused @ [not_found]). peer_of e \<noteq> Silent"
    by (simp add: refused_def not_found_def)
  have 2: "get_error_rate (snd (check_health_seq (ApplicationMonitor_init ''http://localhost:8000'')
      (replicate 7 refused))) = Returns (7 + 1 / 2 ^ 50)"
    using get_error_rate_seven_failures by (simp add: seven_failures_def)
  have 3: "length (items (errors seven_failures)) \<le> maxlen (errors seven_failures)"
    by (simp add: length_errors_seven_failures maxlen_errors_seven_failures)
  note T = error_rate_never_decreases [where am = seven_failures and env = not_found
        and envs = "replicate 7 refused" and envs' = "[not_found]"
        and u = "''http://localhost:8000''" and m = "Monitor_init default_args"
        and w = fresh_world and renv = silent_round
        and rec = "\<lparr>err_time = [], err_error = []\<rparr>"]
  from T 3 obtain r r' where
    "get_error_rate seven_failures = Returns r"
    "get_error_rate (snd (check_health seven_failures not_found)) = Returns r'" "r \<le> r'"
    by blast
  then have A: "\<exists>r'. get_error_rate (snd (check_health seven_failures not_found)) = Returns r' \<and>
         7 + 1 / 2 ^ 50 \<le> r'"
    by (auto simp only: get_error_rate_seven_failures outcome.inject)
  from T 1 obtain s s' where
    "get_error_rate (snd (check_health_seq (ApplicationMonitor_init ''http://localhost:8000'')
      (replicate 7 refused))) = Returns s"
    "get_error_rate (snd (check_health_seq (ApplicationMonitor_init ''http://localhost:8000'')
      (replicate 7 refused @ [not_found]))) = Returns s'" "s \<le> s'"
    by blast
  then have B: "\<exists>r'. get_error_rate (snd (check_health_seq
      (ApplicationMonitor_init ''http://localhost:8000'')
            (replicate 7 refused @ [not_found]))) = Returns r' \<and> 7 + 1 / 2 ^ 50 \<le> r'"
    by (auto simp only: 2 outcome.inject)
  show ?thesis
    using 1 3 A B
    by (simp add: length_errors_seven_failures maxlen_errors_seven_failures list_all_iff)
qed

subsection \<open>Finding the processes of the application\<close>

lemma find_loop_readable:
  assumes "\<forall>p \<in> set table. \<exists>b. process_matches n p = Returns b"
  shows "find_loop n table acc =
     (Returns (), acc @ filter (\<lambda>p. process_matches n p = Returns True) table)"
  using assms
proof (induction table arbitrary: acc)
  case Nil
  then show ?case by simp
next
  case (Cons p ps)
  then obtain b where b: "process_matches n p = Returns b" by auto
  have "find_loop n ps (if b then acc @ [p] else acc) =
      (Returns (), (if b then acc @ [p] else acc) @
         filter (\<lambda>p. process_matches n p = Returns True) ps)"
    using Cons.prems by (intro Cons.IH) simp
  then show ?case by (simp add: b)
qed

lemma find_processes_readable:
  assumes "\<forall>p \<in> set table. \<exists>b. process_matches (process_name pm) p = Returns b"
  shows "fst (find_processes pm table) =
     Returns (filter (\<lambda>p. process_matches (process_name pm) p = Returns True) table)"
  by (simp add: find_processes_def find_loop_readable [OF assms])

lemma find_processes_fresh:
  "fst (find_processes (pm\<lparr>processes := ps\<rparr>) table) = fst (find_processes pm table) \<and>
   snd (find_processes (pm\<lparr>processes := ps\<rparr>) table) = snd (find_processes pm table)"
  by (cases "find_loop (process_name pm) table []"; cases "fst (find_loop (process_name pm) table [])")
     (simp_all add: find_processes_def)

lemma lower_has_no_capital:
  "c \<in> set (lower s) \<Longrightarrow> \<not> (65 \<le> (of_char c :: nat) \<and> (of_char c :: nat) \<le> 90)"
  by (auto simp: lower_def lower_char_def Let_def)

lemma sublist_set: "sublist xs ys \<Longrightarrow> set xs \<subseteq> set ys"
  by (auto simp: sublist_def)

lemma capital_filter_never_matches:
  assumes "c \<in> set n" and "65 \<le> (of_char c :: nat)" and "(of_char c :: nat) \<le> 90"
  shows "\<not> str_in n (lower name)"
proof
  assume "str_in n (lower name)"
  then have "set n \<subseteq> set (lower name)" by (auto simp: str_in_def dest: sublist_set)
  with assms(1) have "c \<in> set (lower name)" by auto
  from lower_has_no_capital [OF this] assms(2,3) show False by simp
qed

lemma process_matches_lower_filter:
  assumes "lower n = n" and "info p = Inr i" and "info_name i = Some name"
    and "info_cmdline i = Some cmdline"
  shows "process_matches n p =
     Returns (contains_ignoring_case n name \<and>
              (\<exists>cmd \<in> set cmdline. contains_ignoring_case ''server.py'' cmd))"
proof -
  have l: "lower ''server.py'' = ''server.py''" by code_simp
  have e: "\<not> sublist ''server.py'' []" by simp
  have "list_ex (\<lambda>cmd. str_in ''server.py'' (lower cmd)) (filter (\<lambda>cmd. cmd \<noteq> []) cmdline)
      \<longleftrightarrow> (\<exists>cmd \<in> set cmdline. contains_ignoring_case ''server.py'' cmd)"
  proof -
    have "str_in ''server.py'' (lower cmd) \<and> cmd \<noteq> [] \<longleftrightarrow>
        contains_ignoring_case ''server.py'' cmd" for cmd
    proof (cases "cmd = []")
      case True
      then have "lower cmd = []" by (simp add: lower_def)
      with True e show ?thesis by (simp add: contains_ignoring_case_def str_in_def l)
    next
      case False
      then show ?thesis by (simp add: contains_ignoring_case_def str_in_def l)
    qed
    then show ?thesis by (auto simp: list_ex_iff)
  qed
  then show ?thesis
    using assms by (simp add: process_matches_def contains_ignoring_case_def str_in_def)
qed

text \<open>
  Claim C6 at the inputs where the code departs from it. With the filter
  \<^verbatim>\<open>'Python'\<close> the server process, named \<^verbatim>\<open>python3\<close>, is not found, although its
  name contains the filter when case is ignored; with \<^verbatim>\<open>'python'\<close> it is. A process
  whose name was withheld makes \<^verbatim>\<open>find_processes\<close> raise \<^verbatim>\<open>AttributeError\<close>
  instead of being skipped.
\<close>

theorem find_processes_case_and_denied:
  "fst (find_processes (ProcessMonitor_init ''Python'') [server_process]) = Returns [] \<and>
   fst (find_processes (ProcessMonitor_init ''python'') [server_process]) = Returns [server_process] \<and>
   fst (find_processes (ProcessMonitor_init ''python'') [denied_process, server_process])
     = Raises AttributeError"
  by code_simp

subsection \<open>A round without a matching process\<close>

lemma bind_cong_returns:
  assumes "\<And>x s. r = (Returns x, s) \<Longrightarrow> f x s = g x s"
  shows "bind r f = bind r g"
  using assms by (cases r; cases "fst r") (auto simp: bind_def)

lemma collect_stats_metrics_unused:
  assumes "fst (find_processes (process_monitor m) (process_table env)) = Returns []"
  shows "collect_stats m (env\<lparr>process_metrics := f\<rparr>) = collect_stats m env"
proof -
  obtain pm where fp: "find_processes (process_monitor m) (process_table env) = (Returns [], pm)"
    using assms by (cases "find_processes (process_monitor m) (process_table env)") simp
  show ?thesis
    unfolding collect_stats_def
    apply simp
    apply (rule bind_cong_returns)
    apply (rule bind_cong_returns)
    apply (auto simp: fp bind_def split: prod.splits)
    done
qed


lemma check_health_returns:
  "peer_of env \<noteq> Silent \<Longrightarrow> \<exists>h. fst (check_health am env) = Returns h"
  by (cases "peer_of env")
     (simp_all add: check_health_Answers check_health_Fails)

lemma get_error_rate_returns: "\<exists>r. get_error_rate am = Returns r"
  by (simp add: get_error_rate_eq)

lemma get_average_response_time_returns: "\<exists>a. get_average_response_time am = Returns a"
  by (simp add: get_average_response_time_def float_truediv_def)

lemma collect_stats_no_process:
  assumes u: "fst (update_history (system_monitor m) (history_queries env)) = Returns ()"
    and p: "peer_of (probe env) \<noteq> Silent"
    and f: "fst (find_processes (process_monitor m) (process_table env)) = Returns []"
    and c: "cpu_percent_query (stats_queries env) = Returns cpu"
    and v: "virtual_memory_query (stats_queries env) = Returns mem"
    and d: "disk_usage_query (stats_queries env) = Returns disk"
  shows "\<exists>stats m'. collect_stats m env = (Returns stats, m') \<and> process stats = None \<and>
           args m' = args m \<and>
           sys_cpu_percent (system stats) = cpu \<and>
           sys_memory_percent (system stats) = raw_percent mem \<and>
           sys_disk_percent (system stats) = raw_percent disk"
proof -
  obtain sm where 1: "update_history (system_monitor m) (history_queries env) = (Returns (), sm)"
    using u by (cases "update_history (system_monitor m) (history_queries env)") simp
  obtain h am where 2: "check_health (app_monitor m) (probe env) = (Returns h, am)"
    using check_health_returns [OF p, of "app_monitor m"]
    by (cases "check_health (app_monitor m) (probe env)") auto
  obtain pm where 3: "find_processes (process_monitor m) (process_table env) = (Returns [], pm)"
    using f by (cases "find_processes (process_monitor m) (process_table env)") simp
  obtain a where 4: "get_average_response_time am = Returns a"
    using get_average_response_time_returns by blast
  obtain r where 5: "get_error_rate am = Returns r"
    using get_error_rate_returns by blast
  show ?thesis
    by (simp add: collect_stats_def bind_def 1 2 3 4 5 c v d get_cpu_usage_def
        get_memory_usage_def get_disk_usage_def usage_of_def)
qed

lemma find_processes_none_match:
  assumes "\<forall>p \<in> set table. process_matches (process_name pm) p = Returns False"
  shows "fst (find_processes pm table) = Returns []"
proof -
  have "\<forall>p \<in> set table. \<exists>b. process_matches (process_name pm) p = Returns b"
    using assms by blast
  then have "fst (find_processes pm table) =
      Returns (filter (\<lambda>p. process_matches (process_name pm) p = Returns True) table)"
    by (rule find_processes_readable)
  moreover have "filter (\<lambda>p. process_matches (process_name pm) p = Returns True) table = []"
    using assms by (simp add: filter_empty_conv)
  ultimately show ?thesis by simp
qed

text \<open>
  What the code does when every process of the table can be read and none matches:
  \<^verbatim>\<open>get_process_info\<close> is not called (the round is the same whatever the process
  metrics would answer), and when the host queries and the probe of the round complete,
  the round returns a snapshot with an empty process block, writes it (a failed write
  is logged) and, unless quiet, shows the summary, which has no process section.
\<close>

lemma round_without_match:
  "(\<forall>p \<in> set (process_table env).
      process_matches (process_name (process_monitor m)) p = Returns False) \<longrightarrow>
     monitor_round m w (env\<lparr>process_metrics := f\<rparr>) = monitor_round m w env \<and>
     (fst (update_history (system_monitor m) (history_queries env)) = Returns () \<and>
      peer_of (probe env) \<noteq> Silent \<and>
      cpu_percent_query (stats_queries env) = Returns cpu \<and>
      virtual_memory_query (stats_queries env) = Returns mem \<and>
      disk_usage_query (stats_queries env) = Returns disk \<longrightarrow>
        (\<exists>stats m' w'. monitor_round m w env = (Returns stats, m', w') \<and>
           process stats = None \<and>
           (write_result env = Write_ok \<longrightarrow> file_content w' = Holds stats) \<and>
           (\<forall>msg. write_result env = Open_fails msg \<longrightarrow>
              file_content w' = file_content w \<and> Error_save_failed msg \<in> set (log w')) \<and>
           (\<forall>msg. write_result env = Dump_fails msg \<longrightarrow>
              file_content w' = Truncated \<and> Error_save_failed msg \<in> set (log w')) \<and>
           (\<not> arg_quiet (args m) \<longrightarrow> terminal w' = format_stats stats) \<and>
           (arg_quiet (args m) \<longrightarrow> terminal w' = terminal w) \<and>
           format_stats stats =
             [Status_line (app_is_alive (application stats)), System_header,
              Cpu_line cpu, Memory_line (raw_percent mem), Disk_line (raw_percent disk),
              Performance_header,
              Avg_response_line (float_mul (app_avg_response_time (application stats)) 1000),
              Error_rate_line (app_error_rate (application stats))]))"
proof (intro impI conjI)
  assume "\<forall>p \<in> set (process_table env).
      process_matches (process_name (process_monitor m)) p = Returns False"
  then have z: "fst (find_processes (process_monitor m) (process_table env)) = Returns []"
    by (rule find_processes_none_match)
  show "monitor_round m w (env\<lparr>process_metrics := f\<rparr>) = monitor_round m w env"
    by (cases "collect_stats m env"; cases "fst (collect_stats m env)")
       (simp_all add: monitor_round_def save_stats_def collect_stats_metrics_unused [OF z])
  assume h: "fst (update_history (system_monitor m) (history_queries env)) = Returns () \<and>
      peer_of (probe env) \<noteq> Silent \<and>
      cpu_percent_query (stats_queries env) = Returns cpu \<and>
      virtual_memory_query (stats_queries env) = Returns mem \<and>
      disk_usage_query (stats_queries env) = Returns disk"
  from collect_stats_no_process [of m env cpu mem disk] z h
  obtain stats m' where s: "collect_stats m env = (Returns stats, m')" "process stats = None"
      "args m' = args m"
      "sys_cpu_percent (system stats) = cpu"
      "sys_memory_percent (system stats) = raw_percent mem"
      "sys_disk_percent (system stats) = raw_percent disk"
    by blast
  show "\<exists>stats m' w'. monitor_round m w env = (Returns stats, m', w') \<and>
           process stats = None \<and>
           (write_result env = Write_ok \<longrightarrow> file_content w' = Holds stats) \<and>
           (\<forall>msg. write_result env = Open_fails msg \<longrightarrow>
              file_content w' = file_content w \<and> Error_save_failed msg \<in> set (log w')) \<and>
           (\<forall>msg. write_result env = Dump_fails msg \<longrightarrow>
              file_content w' = Truncated \<and> Error_save_failed msg \<in> set (log w')) \<and>
           (\<not> arg_quiet (args m) \<longrightarrow> terminal w' = format_stats stats) \<and>
           (arg_quiet (args m) \<longrightarrow> terminal w' = terminal w) \<and>
           format_stats stats =
             [Status_line (app_is_alive (application stats)), System_header,
              Cpu_line cpu, Memory_line (raw_percent mem), Disk_line (raw_percent disk),
              Performance_header,
              Avg_response_line (float_mul (app_avg_response_time (application stats)) 1000),
              Error_rate_line (app_error_rate (application stats))]"
    using s by (auto simp: monitor_round_def save_stats_def format_stats_def Let_def
        split: write_outcome.splits)
qed

lemma idle_round_completes:
  "\<exists>stats m' w'.
      monitor_round (Monitor_init default_args) fresh_world idle_round = (Returns stats, m', w') \<and>
      process stats = None \<and> file_content w' = Holds stats \<and> terminal w' = format_stats stats"
proof -
  let ?mem = "\<lparr>raw_total = 8589934592, raw_used = 4294967296, raw_percent = 50\<rparr>"
  let ?disk = "\<lparr>raw_total = 107374182400, raw_used = 42949672960, raw_percent = 40\<rparr>"
  have "process_matches ''python'' shell_process = Returns False"
    by code_simp
  then have 1: "\<forall>p \<in> set (process_table idle_round).
      process_matches (process_name (process_monitor (Monitor_init default_args))) p = Returns False"
    by (simp add: idle_round_def Monitor_init_def ProcessMonitor_init_def)
  have q: "cpu_percent_query healthy_queries = Returns 50"
    "virtual_memory_query healthy_queries = Returns ?mem"
    "disk_usage_query healthy_queries = Returns ?disk"
    by (simp_all add: healthy_queries_def)
  have 2: "fst (update_history (system_monitor (Monitor_init default_args))
      (history_queries idle_round)) = Returns ()"
    by (simp add: idle_round_def update_history_cases(4) [OF q])
  have 3: "peer_of (probe idle_round) \<noteq> Silent"
    by (simp add: idle_round_def not_found_def)
  have 4: "write_result idle_round = Write_ok" "\<not> arg_quiet (args (Monitor_init default_args))"
    "stats_queries idle_round = healthy_queries"
    by (simp_all add: idle_round_def Monitor_init_def default_args_def)
  from round_without_match [where m = "Monitor_init default_args" and w = fresh_world
      and env = idle_round and cpu = 50 and mem = ?mem and disk = ?disk
      and f = "process_metrics idle_round"] 1 2 3 4 q
  show ?thesis by auto
qed

lemma collect_stats_find_Raises:
  assumes u: "fst (update_history (system_monitor m) (history_queries env)) = Returns ()"
    and p: "peer_of (probe env) \<noteq> Silent"
    and f: "fst (find_processes (process_monitor m) (process_table env)) = Raises e"
  shows "fst (collect_stats m env) = Raises e"
proof -
  obtain sm where 1: "update_history (system_monitor m) (history_queries env) = (Returns (), sm)"
    using u by (cases "update_history (system_monitor m) (history_queries env)") simp
  obtain h am where 2: "check_health (app_monitor m) (probe env) = (Returns h, am)"
    using check_health_returns [OF p, of "app_monitor m"]
    by (cases "check_health (app_monitor m) (probe env)") auto
  obtain pm where 3: "find_processes (process_monitor m) (process_table env) = (Raises e, pm)"
    using f by (cases "find_processes (process_monitor m) (process_table env)") simp
  show ?thesis
    by (simp add: collect_stats_def bind_def 1 2 3)
qed

lemma monitor_round_collect_Raises:
  assumes "fst (collect_stats m env) = Raises e"
  shows "fst (monitor_round m w env) = Raises e" and "snd (snd (monitor_round m w env)) = w"
  using assms by (cases "collect_stats m env"; simp add: monitor_round_def)+

text \<open>
  Claim C8 at an input where the code departs from it. In \<open>denied_round\<close> the host
  queries, the probe and the write of the stats file all succeed and no process of the
  table matches: one is a shell, the name of the other was withheld. The round does not
  complete: \<^verbatim>\<open>find_processes\<close> raises \<^verbatim>\<open>AttributeError\<close> on the withheld name,
  \<^verbatim>\<open>collect_stats\<close> and the round raise it, and no snapshot is written or shown.
\<close>

theorem withheld_name_aborts_round:
  "list_all (\<lambda>p. process_matches ''python'' p \<noteq> Returns True) (process_table denied_round) \<and>
   fst (monitor_round (Monitor_init default_args) fresh_world denied_round) = Raises AttributeError \<and>
   snd (snd (monitor_round (Monitor_init default_args) fresh_world denied_round)) = fresh_world"
proof -
  let ?mem = "\<lparr>raw_total = 8589934592, raw_used = 4294967296, raw_percent = 50\<rparr>"
  let ?disk = "\<lparr>raw_total = 107374182400, raw_used = 42949672960, raw_percent = 40\<rparr>"
  have t: "process_table denied_round = [denied_process, shell_process]"
    by (simp add: denied_round_def)
  have "process_matches ''python'' denied_process = Raises AttributeError"
    "process_matches ''python'' shell_process = Returns False"
    by code_simp+
  then have 0: "list_all (\<lambda>p. process_matches ''python'' p \<noteq> Returns True)
      (process_table denied_round)"
    by (simp add: t)
  have q: "cpu_percent_query healthy_queries = Returns 50"
    "virtual_memory_query healthy_queries = Returns ?mem"
    "disk_usage_query healthy_queries = Returns ?disk"
    by (simp_all add: healthy_queries_def)
  have 1: "fst (update_history (system_monitor (Monitor_init default_args))
      (history_queries denied_round)) = Returns ()"
    by (simp add: denied_round_def idle_round_def update_history_cases(4) [OF q])
  have 2: "peer_of (probe denied_round) \<noteq> Silent"
    by (simp add: denied_round_def idle_round_def not_found_def)
  have "fst (find_processes (ProcessMonitor_init ''python'') [denied_process, shell_process])
      = Raises AttributeError"
    by code_simp
  then have 3: "fst (find_processes (process_monitor (Monitor_init default_args))
      (process_table denied_round)) = Raises AttributeError"
    by (simp add: t Monitor_init_def)
  have "fst (collect_stats (Monitor_init default_args) denied_round) = Raises AttributeError"
    using 1 2 3 by (rule collect_stats_find_Raises)
  from monitor_round_collect_Raises [OF this, of fresh_world] 0 show ?thesis by simp
qed

end
